theory Spec2Isabelle
  imports Main
begin

section \<open>Values\<close>

text \<open>
  The data handed to the Dashboard Builder is a parsed JSON response. Numbers are IEEE
  doubles in the program; the embedding keeps the number type \<open>'n\<close> abstract and takes
  every operation on numbers from the host (see \<open>host\<close> below), so that nothing proved
  here depends on exact arithmetic. A JSON object is the list of its own properties in
  enumeration order (the order of \<open>for ... in\<close> and \<open>Object.keys\<close>). Strings are lists
  of characters, one \<open>char\<close> per code unit.
\<close>

datatype 'n json =
    JNull
  | JBool bool
  | JNum 'n
  | JStr string
  | JArr "'n json list"
  | JObj "(string \<times> 'n json) list"

text \<open>
  A value read from an object created by the program is a JSON value, \<open>undefined\<close>, or a
  member inherited from \<open>Object.prototype\<close> (named by its property name).
\<close>

datatype 'n jsval = Undefined | Inherited string | Json "'n json"

section \<open>Field descriptions and chart configurations\<close>

datatype field_type = TString | TNumber | TDate | TBoolean | TArray | TObject

datatype chart_type = Bar | Line | Pie | Table

record 'n FieldInfo =
  name :: string
  type :: field_type
  sampleValue :: "'n jsval"

record ChartConfig =
  type :: chart_type
  xAxis :: string
  yAxis :: string
  groupBy :: "string option"
  title :: string

section \<open>Chart auto-configuration\<close>

text \<open>
  \<open>suggestChartConfig\<close> (DashboardBuilder.tsx, lines 153-177). \<open>null\<close> is \<open>None\<close>; every
  index into a filtered list is guarded by the length test of the source.
\<close>

definition suggestChartConfig :: "'n FieldInfo list \<Rightarrow> ChartConfig option" where
  "suggestChartConfig flds =
    (let stringFields = filter (\<lambda>f. FieldInfo.type f = TString) flds;
         numberFields = filter (\<lambda>f. FieldInfo.type f = TNumber) flds;
         dateFields = filter (\<lambda>f. FieldInfo.type f = TDate) flds
     in if length numberFields = 0 \<and> length stringFields = 0 then None
        else
          let y = (if length numberFields > 0 then FieldInfo.name (numberFields ! 0) else '''');
              t = (if length numberFields > 0 then Bar else Table);
              (x, t') =
                (if length dateFields > 0
                 then (FieldInfo.name (dateFields ! 0), if length numberFields > 0 then Line else t)
                 else if length stringFields > 0 then (FieldInfo.name (stringFields ! 0), t)
                 else if length numberFields > 1 then (FieldInfo.name (numberFields ! 1), t)
                 else if length numberFields > 0 then (FieldInfo.name (numberFields ! 0), t)
                 else ('''', t))
          in Some \<lparr>ChartConfig.type = t', xAxis = x, yAxis = y, groupBy = None,
                   title = (if y \<noteq> '''' then y @ '' by '' @ x
                            else ''Data Analysis: '' @ x)\<rparr>)"

text \<open>Whether some field of a list has a given type.\<close>

definition hasFieldOfType :: "field_type \<Rightarrow> 'n FieldInfo list \<Rightarrow> bool" where
  "hasFieldOfType t flds = (filter (\<lambda>f. FieldInfo.type f = t) flds \<noteq> [])"

section \<open>The host\<close>

text \<open>
  The program relies on built-in functions of the JavaScript runtime. They are parameters
  of the embedding: \<open>Number h s\<close> is \<open>Number(s)\<close> for a string \<open>s\<close>, \<open>isNaN h\<close> is
  \<open>isNaN\<close> on numbers, \<open>Date_parse h\<close> is \<open>Date.parse\<close>, \<open>JSON_stringify h\<close> is
  \<open>JSON.stringify\<close>, \<open>localeCompare h a b\<close> is \<open>a.localeCompare(b)\<close>, \<open>num_add h\<close> is \<open>+\<close>
  on two numbers, \<open>num_zero\<close>, \<open>num_one\<close> and \<open>num_nan\<close> are the numbers \<open>0\<close>, \<open>1\<close> and
  \<open>NaN\<close>, \<open>num_toString h\<close> converts a number to a string, and \<open>inherited_toString h k\<close>
  is the text that the built-in function \<open>Object.prototype[k]\<close> converts to.
\<close>

record 'n host =
  Number :: "string \<Rightarrow> 'n"
  isNaN :: "'n \<Rightarrow> bool"
  Date_parse :: "string \<Rightarrow> 'n"
  JSON_stringify :: "'n json \<Rightarrow> string"
  localeCompare :: "string \<Rightarrow> string \<Rightarrow> int"
  num_add :: "'n \<Rightarrow> 'n \<Rightarrow> 'n"
  num_zero :: 'n
  num_one :: 'n
  num_nan :: 'n
  num_toString :: "'n \<Rightarrow> string"
  inherited_toString :: "string \<Rightarrow> string"

section \<open>Objects created by the program\<close>

subsection \<open>Property order\<close>

text \<open>
  The own properties of an object are enumerated with the array indices first, in
  ascending numeric order, and the other keys after them in the order of their creation.
  An array index is the canonical decimal form of an integer from \<open>0\<close> to \<open>2^32 - 2\<close>.
\<close>

text \<open>The value of a decimal digit is its position among the ten digits.\<close>

definition digit_val :: "char \<Rightarrow> nat" where
  "digit_val c = length (takeWhile (\<lambda>d. d \<noteq> c) ''0123456789'')"

definition is_digit :: "char \<Rightarrow> bool" where
  "is_digit c = (c \<in> set ''0123456789'')"

definition digits_value :: "string \<Rightarrow> nat" where
  "digits_value s = foldl (\<lambda>n c. 10 * n + digit_val c) 0 s"

definition array_index :: "string \<Rightarrow> nat option" where
  "array_index s =
    (if s = ''0'' then Some 0
     else if s \<noteq> [] \<and> list_all is_digit s \<and> hd s \<noteq> CHR ''0'' \<and> digits_value s \<le> 4294967294
     then Some (digits_value s)
     else None)"

fun insert_index :: "nat \<Rightarrow> string \<Rightarrow> 'v \<Rightarrow> (string \<times> 'v) list \<Rightarrow> (string \<times> 'v) list" where
  "insert_index i k v [] = [(k, v)]"
| "insert_index i k v ((k', v') # ps) =
    (case array_index k' of
       None \<Rightarrow> (k, v) # (k', v') # ps
     | Some j \<Rightarrow> if i < j then (k, v) # (k', v') # ps else (k', v') # insert_index i k v ps)"

text \<open>Creating a property that the object does not have yet.\<close>

definition prop_insert :: "string \<Rightarrow> 'v \<Rightarrow> (string \<times> 'v) list \<Rightarrow> (string \<times> 'v) list" where
  "prop_insert k v ps =
    (case array_index k of None \<Rightarrow> ps @ [(k, v)] | Some i \<Rightarrow> insert_index i k v ps)"

text \<open>Writing an own property: an existing one keeps its place.\<close>

definition prop_put :: "string \<Rightarrow> 'v \<Rightarrow> (string \<times> 'v) list \<Rightarrow> (string \<times> 'v) list" where
  "prop_put k v ps =
    (if k \<in> fst ` set ps then map (\<lambda>(k', v'). if k' = k then (k', v) else (k', v')) ps
     else prop_insert k v ps)"

subsection \<open>Reading and writing properties\<close>

text \<open>
  An object made by \<open>{}\<close> or by an object literal has its own properties and inherits
  the members of \<open>Object.prototype\<close>; \<open>has_proto\<close> records whether it still does.
\<close>

record 'n jsobj =
  props :: "(string \<times> 'n jsval) list"
  has_proto :: bool

definition empty_obj :: "'n jsobj" where
  "empty_obj = \<lparr>props = [], has_proto = True\<rparr>"

definition inherited_names :: "string list" where
  "inherited_names =
    [''constructor'', ''__defineGetter__'', ''__defineSetter__'', ''hasOwnProperty'',
     ''__lookupGetter__'', ''__lookupSetter__'', ''isPrototypeOf'', ''propertyIsEnumerable'',
     ''toString'', ''valueOf'', ''__proto__'', ''toLocaleString'']"

text \<open>\<open>obj[k]\<close>: the own property, else the inherited member, else \<open>undefined\<close>.\<close>

definition js_get :: "'n jsobj \<Rightarrow> string \<Rightarrow> 'n jsval" where
  "js_get obj k =
    (case map_of (props obj) k of
       Some v \<Rightarrow> v
     | None \<Rightarrow> if has_proto obj \<and> k \<in> set inherited_names then Inherited k else Undefined)"

text \<open>
  \<open>obj[k] = v\<close>. When \<open>k\<close> is \<open>__proto__\<close> and the object has no own property of that
  name, the assignment reaches the inherited setter: \<open>null\<close> removes the prototype, a
  primitive value is ignored, and \<open>Object.prototype\<close> itself changes nothing. The program
  never assigns any other object there (the values it writes come out of \<open>flattenData\<close>
  or out of a read of \<open>__proto__\<close>), so that case is left as no change.
\<close>

definition js_set :: "'n jsobj \<Rightarrow> string \<Rightarrow> 'n jsval \<Rightarrow> 'n jsobj" where
  "js_set obj k v =
    (if k \<in> fst ` set (props obj) then obj\<lparr>props := prop_put k v (props obj)\<rparr>
     else if k = ''__proto__'' \<and> has_proto obj
     then (if v = Json JNull then obj\<lparr>has_proto := False\<rparr> else obj)
     else obj\<lparr>props := prop_put k v (props obj)\<rparr>)"

text \<open>An object literal: its properties are defined in order, a repeated key overwrites.\<close>

definition object_literal :: "(string \<times> 'n jsval) list \<Rightarrow> 'n jsobj" where
  "object_literal kvs = \<lparr>props = foldl (\<lambda>ps (k, v). prop_put k v ps) [] kvs, has_proto = True\<rparr>"

text \<open>\<open>Object.assign(target, source)\<close> writes the own properties of the source in order.\<close>

definition object_assign :: "'n jsobj \<Rightarrow> 'n jsobj \<Rightarrow> 'n jsobj" where
  "object_assign target source = foldl (\<lambda>obj (k, v). js_set obj k v) target (props source)"

subsection \<open>Types, string conversion and addition\<close>

datatype js_type = TyUndefined | TyObject | TyBoolean | TyNumber | TyString | TyFunction

fun typeof :: "'n jsval \<Rightarrow> js_type" where
  "typeof Undefined = TyUndefined"
| "typeof (Inherited k) = (if k = ''__proto__'' then TyObject else TyFunction)"
| "typeof (Json JNull) = TyObject"
| "typeof (Json (JBool b)) = TyBoolean"
| "typeof (Json (JNum n)) = TyNumber"
| "typeof (Json (JStr s)) = TyString"
| "typeof (Json (JArr xs)) = TyObject"
| "typeof (Json (JObj kvs)) = TyObject"

fun isArray :: "'n jsval \<Rightarrow> bool" where
  "isArray (Json (JArr xs)) = True"
| "isArray _ = False"

fun join_with :: "string \<Rightarrow> string list \<Rightarrow> string" where
  "join_with sep [] = ''''"
| "join_with sep [s] = s"
| "join_with sep (s # t # ts) = s @ sep @ join_with sep (t # ts)"

text \<open>
  Conversion to a string, as in a template literal or a property key. An object converts
  to \<open>[object Object]\<close> and an array to its elements joined by commas (\<open>null\<close> as the
  empty string); the program only ever converts values read from flattened records,
  which are neither.
\<close>

fun json_to_string :: "'n host \<Rightarrow> 'n json \<Rightarrow> string" where
  "json_to_string h JNull = ''null''"
| "json_to_string h (JBool b) = (if b then ''true'' else ''false'')"
| "json_to_string h (JNum n) = num_toString h n"
| "json_to_string h (JStr s) = s"
| "json_to_string h (JArr xs) =
     join_with '','' (map (\<lambda>x. if x = JNull then '''' else json_to_string h x) xs)"
| "json_to_string h (JObj kvs) = ''[object Object]''"

fun to_string :: "'n host \<Rightarrow> 'n jsval \<Rightarrow> string" where
  "to_string h Undefined = ''undefined''"
| "to_string h (Inherited k) =
     (if k = ''__proto__'' then ''[object Object]'' else inherited_toString h k)"
| "to_string h (Json j) = json_to_string h j"

text \<open>
  The operator \<open>+\<close>: when either operand converts to a string primitive the result is the
  concatenation of both as strings; otherwise both are converted to numbers and added.
\<close>

fun to_number :: "'n host \<Rightarrow> 'n jsval \<Rightarrow> 'n" where
  "to_number h (Json (JNum n)) = n"
| "to_number h (Json JNull) = num_zero h"
| "to_number h (Json (JBool b)) = (if b then num_one h else num_zero h)"
| "to_number h Undefined = num_nan h"
| "to_number h v = Number h (to_string h v)"

definition js_add :: "'n host \<Rightarrow> 'n jsval \<Rightarrow> 'n jsval \<Rightarrow> 'n jsval" where
  "js_add h a b =
    (if typeof a \<in> {TyString, TyFunction} \<or> (typeof a = TyObject \<and> a \<noteq> Json JNull)
        \<or> typeof b \<in> {TyString, TyFunction} \<or> (typeof b = TyObject \<and> b \<noteq> Json JNull)
     then Json (JStr (to_string h a @ to_string h b))
     else Json (JNum (num_add h (to_number h a) (to_number h b))))"

section \<open>Array discovery\<close>

text \<open>
  \<open>findArrays\<close> (DashboardBuilder.tsx, lines 28-39). An array is pushed and not searched;
  an object is searched key by key; anything else contributes nothing.
\<close>

fun findArrays :: "'n json \<Rightarrow> string \<Rightarrow> (string \<times> 'n json list) list" where
  "findArrays (JArr xs) prefix = [(if prefix \<noteq> '''' then prefix else ''root'', xs)]"
| "findArrays (JObj kvs) prefix =
     concat (map (\<lambda>(key, v).
       findArrays v (if prefix \<noteq> '''' then prefix @ ''.'' @ key else key)) kvs)"
| "findArrays _ prefix = []"

section \<open>Flattening a record\<close>

datatype error = TypeError

fun digit_char :: "nat \<Rightarrow> char" where
  "digit_char n = ''0123456789'' ! (n mod 10)"

fun show_nat :: "nat \<Rightarrow> string" where
  "show_nat n = (if n < 10 then [digit_char n] else show_nat (n div 10) @ [digit_char n])"

text \<open>
  The keys and values that \<open>for (const key in obj)\<close> visits: the properties of an object,
  the elements of an array under their indices, the characters of a string under their
  indices, and nothing for \<open>null\<close>, a boolean or a number.
\<close>

definition indexed :: "'a list \<Rightarrow> (string \<times> 'a) list" where
  "indexed xs = zip (map show_nat [0..<length xs]) xs"

fun entries :: "'n json \<Rightarrow> (string \<times> 'n json) list" where
  "entries (JObj kvs) = kvs"
| "entries (JArr xs) = indexed xs"
| "entries (JStr s) = indexed (map (\<lambda>c. JStr [c]) s)"
| "entries _ = []"

text \<open>
  \<open>obj.hasOwnProperty\<close> is the inherited function unless the record has a key of that
  name; then it is that JSON value, and calling it throws a \<open>TypeError\<close>.
\<close>

fun hasOwnProperty_callable :: "'n json \<Rightarrow> bool" where
  "hasOwnProperty_callable (JObj kvs) = (map_of kvs ''hasOwnProperty'' = None)"
| "hasOwnProperty_callable _ = True"

text \<open>
  The loop of \<open>flattenData\<close> (DashboardBuilder.tsx, lines 116-133) over the remaining
  entries of \<open>obj\<close>; \<open>callable\<close> says whether \<open>obj.hasOwnProperty\<close> can be called. The
  recursive call is \<open>flattenData(obj[key], newKey)\<close>, which starts from a fresh \<open>{}\<close>.
\<close>

fun flattenProps ::
  "'n host \<Rightarrow> bool \<Rightarrow> (string \<times> 'n json) list \<Rightarrow> string \<Rightarrow> 'n jsobj \<Rightarrow> error + 'n jsobj" where
  "flattenProps h callable [] prefix flattened = Inr flattened"
| "flattenProps h callable ((key, JNull) # rest) prefix flattened =
    (if \<not> callable then Inl TypeError
     else flattenProps h callable rest prefix
            (js_set flattened (if prefix \<noteq> '''' then prefix @ ''.'' @ key else key) (Json JNull)))"
| "flattenProps h callable ((key, JArr xs) # rest) prefix flattened =
    (if \<not> callable then Inl TypeError
     else flattenProps h callable rest prefix
            (js_set flattened (if prefix \<noteq> '''' then prefix @ ''.'' @ key else key)
               (Json (JStr (JSON_stringify h (JArr xs))))))"
| "flattenProps h callable ((key, JObj kvs) # rest) prefix flattened =
    (if \<not> callable then Inl TypeError
     else case flattenProps h (map_of kvs ''hasOwnProperty'' = None) kvs
                 (if prefix \<noteq> '''' then prefix @ ''.'' @ key else key) empty_obj of
            Inl e \<Rightarrow> Inl e
          | Inr inner \<Rightarrow> flattenProps h callable rest prefix (object_assign flattened inner))"
| "flattenProps h callable ((key, v) # rest) prefix flattened =
    (if \<not> callable then Inl TypeError
     else flattenProps h callable rest prefix
            (js_set flattened (if prefix \<noteq> '''' then prefix @ ''.'' @ key else key) (Json v)))"

definition flattenData :: "'n host \<Rightarrow> 'n json \<Rightarrow> string \<Rightarrow> error + 'n jsobj" where
  "flattenData h obj prefix =
     flattenProps h (hasOwnProperty_callable obj) (entries obj) prefix empty_obj"

section \<open>Field inference\<close>

subsection \<open>The date pattern\<close>

text \<open>
  \<open>/^\d{4}-\d{2}-\d{2}|^\d{2}\/\d{2}\/\d{4}|\d{4}-\d{2}-\d{2}T\d{2}:\d{2}:\d{2}/\<close>: three
  alternatives, the first two anchored at the start of the string, the third matching
  anywhere. A pattern is a list of items, each a digit class or a literal character.
\<close>

datatype rx = Digit | Lit char

fun match_here :: "rx list \<Rightarrow> string \<Rightarrow> bool" where
  "match_here [] s = True"
| "match_here (r # rs) [] = False"
| "match_here (Digit # rs) (c # cs) = (is_digit c \<and> match_here rs cs)"
| "match_here (Lit a # rs) (c # cs) = (a = c \<and> match_here rs cs)"

fun match_anywhere :: "rx list \<Rightarrow> string \<Rightarrow> bool" where
  "match_anywhere rs [] = match_here rs []"
| "match_anywhere rs (c # cs) = (match_here rs (c # cs) \<or> match_anywhere rs cs)"

definition dateRegex_test :: "string \<Rightarrow> bool" where
  "dateRegex_test s =
    (match_here [Digit, Digit, Digit, Digit, Lit CHR ''-'', Digit, Digit, Lit CHR ''-'',
                 Digit, Digit] s
     \<or> match_here [Digit, Digit, Lit CHR ''/'', Digit, Digit, Lit CHR ''/'',
                   Digit, Digit, Digit, Digit] s
     \<or> match_anywhere [Digit, Digit, Digit, Digit, Lit CHR ''-'', Digit, Digit, Lit CHR ''-'',
                       Digit, Digit, Lit CHR ''T'', Digit, Digit, Lit CHR '':'', Digit, Digit,
                       Lit CHR '':'', Digit, Digit] s)"

subsection \<open>Type detection\<close>

text \<open>
  \<open>detectFieldType\<close> (DashboardBuilder.tsx, lines 135-151). \<open>values[0]\<close> of an empty list
  is \<open>undefined\<close>.
\<close>

definition detectFieldType :: "'n host \<Rightarrow> 'n jsval list \<Rightarrow> field_type" where
  "detectFieldType h values =
    (let firstValue = (case values of [] \<Rightarrow> Undefined | v # _ \<Rightarrow> v)
     in if isArray firstValue then TArray
        else if typeof firstValue = TyBoolean then TBoolean
        else if typeof firstValue = TyObject then TObject
        else if typeof firstValue = TyNumber
                \<or> (typeof firstValue = TyString
                    \<and> \<not> isNaN h (Number h (to_string h firstValue))) then TNumber
        else if typeof firstValue = TyString
                \<and> (dateRegex_test (to_string h firstValue)
                    \<or> \<not> isNaN h (Date_parse h (to_string h firstValue))) then TDate
        else TString)"

subsection \<open>Analysing the sampled records\<close>

text \<open>
  \<open>analyzeFields\<close> (DashboardBuilder.tsx, lines 91-114). \<open>allKeys\<close> is a \<open>Set\<close>: it keeps
  each key once, in the order of first insertion.
\<close>

definition set_add :: "'a \<Rightarrow> 'a list \<Rightarrow> 'a list" where
  "set_add k ks = (if k \<in> set ks then ks else ks @ [k])"

fun collectKeys :: "'n host \<Rightarrow> 'n json list \<Rightarrow> string list \<Rightarrow> error + string list" where
  "collectKeys h [] allKeys = Inr allKeys"
| "collectKeys h (item # items) allKeys =
    (if typeof (Json item) = TyObject \<and> item \<noteq> JNull
     then case flattenData h item '''' of
            Inl e \<Rightarrow> Inl e
          | Inr flattened \<Rightarrow>
              collectKeys h items (foldl (\<lambda>ks k. set_add k ks) allKeys (map fst (props flattened)))
     else collectKeys h items allKeys)"

text \<open>\<open>sampleData.map(item => flattenData(item)[key])\<close>\<close>

fun sampleAll :: "'n host \<Rightarrow> 'n json list \<Rightarrow> string \<Rightarrow> error + 'n jsval list" where
  "sampleAll h [] key = Inr []"
| "sampleAll h (item # items) key =
    (case flattenData h item '''' of
       Inl e \<Rightarrow> Inl e
     | Inr flattened \<Rightarrow>
         (case sampleAll h items key of
            Inl e \<Rightarrow> Inl e
          | Inr vs \<Rightarrow> Inr (js_get flattened key # vs)))"

definition notNullish :: "'n jsval \<Rightarrow> bool" where
  "notNullish val = (val \<noteq> Undefined \<and> val \<noteq> Json JNull)"

fun buildFields ::
  "'n host \<Rightarrow> 'n json list \<Rightarrow> string list \<Rightarrow> 'n FieldInfo list \<Rightarrow> error + 'n FieldInfo list" where
  "buildFields h sampleData [] flds = Inr flds"
| "buildFields h sampleData (key # keys) flds =
    (case sampleAll h sampleData key of
       Inl e \<Rightarrow> Inl e
     | Inr vs \<Rightarrow>
         (let sampleValues = filter notNullish vs
          in if length sampleValues > 0
             then buildFields h sampleData keys
                    (flds @ [\<lparr>FieldInfo.name = key,
                              FieldInfo.type = detectFieldType h sampleValues,
                              sampleValue = sampleValues ! 0\<rparr>])
             else buildFields h sampleData keys flds))"

text \<open>
  \<open>Array.prototype.sort\<close> with a comparator is stable; the model inserts each element
  behind the elements that do not compare greater.
\<close>

fun insert_sorted :: "('a \<Rightarrow> 'a \<Rightarrow> int) \<Rightarrow> 'a \<Rightarrow> 'a list \<Rightarrow> 'a list" where
  "insert_sorted cmp x [] = [x]"
| "insert_sorted cmp x (y # ys) =
    (if cmp x y < 0 then x # y # ys else y # insert_sorted cmp x ys)"

definition sort_with :: "('a \<Rightarrow> 'a \<Rightarrow> int) \<Rightarrow> 'a list \<Rightarrow> 'a list" where
  "sort_with cmp xs = foldl (\<lambda>sorted x. insert_sorted cmp x sorted) [] xs"

definition analyzeFields :: "'n host \<Rightarrow> 'n json list \<Rightarrow> error + 'n FieldInfo list" where
  "analyzeFields h data =
    (let sampleData = take 5 data
     in case collectKeys h sampleData [] of
          Inl e \<Rightarrow> Inl e
        | Inr allKeys \<Rightarrow>
            (case buildFields h sampleData allKeys [] of
               Inl e \<Rightarrow> Inl e
             | Inr flds \<Rightarrow>
                 Inr (sort_with (\<lambda>a b. localeCompare h (FieldInfo.name a) (FieldInfo.name b))
                        flds)))"

section \<open>Preparing the rows of a chart\<close>

text \<open>
  \<open>processDataForChart\<close> (DashboardBuilder.tsx, lines 179-232). The callback of
  \<open>data.map\<close> is \<open>processItem\<close>, the predicate of \<open>filter\<close> is \<open>keepItem\<close>, and the two
  callbacks of \<open>reduce\<close> are \<open>groupStep\<close> and \<open>pieStep\<close>. An exception thrown by
  \<open>flattenData\<close> ends the whole call.
\<close>

definition truthy_string :: "string option \<Rightarrow> bool" where
  "truthy_string s = (case s of None \<Rightarrow> False | Some g \<Rightarrow> g \<noteq> '''')"

definition processItem :: "'n host \<Rightarrow> ChartConfig \<Rightarrow> 'n json \<Rightarrow> error + 'n jsobj" where
  "processItem h config item =
    (case flattenData h item '''' of
       Inl e \<Rightarrow> Inl e
     | Inr flattened \<Rightarrow>
         (let result = js_set empty_obj (xAxis config) (js_get flattened (xAxis config));
              yValue = js_get flattened (yAxis config);
              yValue' = (if typeof yValue = TyString
                            \<and> \<not> isNaN h (Number h (to_string h yValue))
                         then Json (JNum (Number h (to_string h yValue))) else yValue);
              result' = js_set result (yAxis config) yValue'
          in Inr (if truthy_string (groupBy config)
                  then js_set result' (the (groupBy config))
                         (js_get flattened (the (groupBy config)))
                  else result')))"

definition keepItem :: "ChartConfig \<Rightarrow> 'n jsobj \<Rightarrow> bool" where
  "keepItem config item =
    (js_get item (xAxis config) \<noteq> Undefined
     \<and> js_get item (yAxis config) \<noteq> Undefined
     \<and> typeof (js_get item (yAxis config)) = TyNumber)"

fun mapItems :: "'n host \<Rightarrow> ChartConfig \<Rightarrow> 'n json list \<Rightarrow> error + 'n jsobj list" where
  "mapItems h config [] = Inr []"
| "mapItems h config (item # items) =
    (case processItem h config item of
       Inl e \<Rightarrow> Inl e
     | Inr result \<Rightarrow>
         (case mapItems h config items of
            Inl e \<Rightarrow> Inl e
          | Inr results \<Rightarrow> Inr (result # results)))"

text \<open>The intermediate list \<open>processed\<close>.\<close>

definition processed :: "'n host \<Rightarrow> 'n json list \<Rightarrow> ChartConfig \<Rightarrow> error + 'n jsobj list" where
  "processed h data config =
    (case mapItems h config data of
       Inl e \<Rightarrow> Inl e
     | Inr results \<Rightarrow> Inr (filter (keepItem config) results))"

text \<open>
  The accumulator \<open>acc\<close> of either \<open>reduce\<close> starts as \<open>{}\<close>; it is the list of its own
  properties, each holding a row. \<open>acc[key]\<close> is falsy only when \<open>key\<close> is neither an own
  property nor the name of an inherited member. When \<open>key\<close> names an inherited member,
  \<open>acc[key]\<close> is that built-in object, and the updates after the test write to it and
  leave \<open>acc\<close> as it is.

  The component is a module, hence strict code, where a write that fails throws a
  \<open>TypeError\<close>. Every inherited member except \<open>__proto__\<close> is a function: its \<open>length\<close>
  and \<open>name\<close> are read-only, its \<open>caller\<close> and \<open>arguments\<close> are accessors that throw,
  and the \<open>prototype\<close> of the function \<open>constructor\<close> is read-only. Under \<open>__proto__\<close>
  the built-in object is \<open>Object.prototype\<close>, where every write of a number or a string
  succeeds. The group-by branch writes the property named by the Y-axis; the properties
  \<open>count\<close> and \<open>value\<close> can always be written.

  What such a write leaves behind on the built-in object is not kept by this embedding:
  it is not part of the returned rows, and a later step that would read it back (after a
  write to a built-in object in the same call, or in a later call) is not followed. The
  properties proved below about the group-by branch assume that no key names an
  inherited member, so that no built-in object is written.
\<close>

definition acc_missing :: "(string \<times> 'v) list \<Rightarrow> string \<Rightarrow> bool" where
  "acc_missing acc key = (map_of acc key = None \<and> key \<notin> set inherited_names)"

definition readonly_on_function :: "string list" where
  "readonly_on_function = [''length'', ''name'', ''caller'', ''arguments'']"

definition inherited_write_throws :: "string \<Rightarrow> string \<Rightarrow> bool" where
  "inherited_write_throws key prop =
    (key \<noteq> ''__proto__''
     \<and> (prop \<in> set readonly_on_function \<or> (key = ''constructor'' \<and> prop = ''prototype'')))"

definition groupStep ::
  "'n host \<Rightarrow> ChartConfig \<Rightarrow> (string \<times> 'n jsobj) list \<Rightarrow> 'n jsobj
     \<Rightarrow> error + (string \<times> 'n jsobj) list" where
  "groupStep h config acc item =
    (let groupByValue = (if truthy_string (groupBy config)
                         then js_get item (the (groupBy config)) else Json (JStr ''''));
         key = to_string h (js_get item (xAxis config)) @ ''_'' @ to_string h groupByValue;
         resultItem = object_literal
                        [(xAxis config, js_get item (xAxis config)),
                         (yAxis config, Json (JNum (num_zero h))),
                         (''count'', Json (JNum (num_zero h)))];
         resultItem' = (if truthy_string (groupBy config)
                        then js_set resultItem (the (groupBy config)) groupByValue
                        else resultItem);
         acc' = (if acc_missing acc key then prop_put key resultItem' acc else acc)
     in case map_of acc' key of
          None \<Rightarrow> if inherited_write_throws key (yAxis config) then Inl TypeError else Inr acc'
        | Some row \<Rightarrow>
            (let row' = js_set row (yAxis config)
                          (js_add h (js_get row (yAxis config)) (js_get item (yAxis config)));
                 row'' = js_set row' ''count''
                           (js_add h (js_get row' ''count'') (Json (JNum (num_one h))))
             in Inr (prop_put key row'' acc')))"

text \<open>\<open>reduce\<close> with a callback that may throw: the first exception ends it.\<close>

fun reduceRows :: "('a \<Rightarrow> 'r \<Rightarrow> error + 'a) \<Rightarrow> 'a \<Rightarrow> 'r list \<Rightarrow> error + 'a" where
  "reduceRows f acc [] = Inr acc"
| "reduceRows f acc (item # items) =
    (case f acc item of Inl e \<Rightarrow> Inl e | Inr acc' \<Rightarrow> reduceRows f acc' items)"

definition pieStep ::
  "'n host \<Rightarrow> ChartConfig \<Rightarrow> (string \<times> 'n jsobj) list \<Rightarrow> 'n jsobj \<Rightarrow> (string \<times> 'n jsobj) list" where
  "pieStep h config acc item =
    (let key = js_get item (xAxis config);
         acc' = (if acc_missing acc (to_string h key)
                 then prop_put (to_string h key)
                        (object_literal [(''name'', key), (''value'', Json (JNum (num_zero h)))])
                        acc
                 else acc)
     in case map_of acc' (to_string h key) of
          None \<Rightarrow> acc'
        | Some row \<Rightarrow>
            prop_put (to_string h key)
              (js_set row ''value''
                 (js_add h (js_get row ''value'') (js_get item (yAxis config))))
              acc')"

definition processDataForChart ::
  "'n host \<Rightarrow> 'n json list \<Rightarrow> ChartConfig \<Rightarrow> error + 'n jsobj list" where
  "processDataForChart h data config =
    (case processed h data config of
       Inl e \<Rightarrow> Inl e
     | Inr rows \<Rightarrow>
         if truthy_string (groupBy config)
         then (case reduceRows (groupStep h config) [] rows of
                 Inl e \<Rightarrow> Inl e
               | Inr grouped \<Rightarrow> Inr (map snd grouped))
         else if ChartConfig.type config = Pie
         then Inr (map snd (foldl (pieStep h config) [] rows))
         else Inr rows)"

section \<open>Saving a request to the history\<close>

text \<open>
  \<open>saveApiRequest\<close> (the \<open>apiHistory\<close> mutations, lines 5-27). The context carries what
  \<open>getAuthUserId(ctx)\<close> returns (\<open>None\<close> for \<open>null\<close>) and the \<open>apiHistory\<close> table;
  \<open>Date.now()\<close> and the identifier that \<open>ctx.db.insert\<close> assigns are parameters. The
  result is the thrown error or the new identifier, together with the table afterwards.
\<close>

datatype http_method = GET | POST

record SaveArgs =
  name :: string
  url :: string
  reqMethod :: http_method
  headers :: "(string \<times> string) list"
  body :: "string option"

record ApiHistoryDoc =
  userId :: string
  name :: string
  url :: string
  reqMethod :: http_method
  headers :: "(string \<times> string) list"
  body :: "string option"
  createdAt :: int

record Ctx =
  authUserId :: "string option"
  apiHistory :: "(string \<times> ApiHistoryDoc) list"

datatype api_error = Unauthorized

definition saveApiRequest ::
  "int \<Rightarrow> string \<Rightarrow> Ctx \<Rightarrow> SaveArgs \<Rightarrow> (api_error + string) \<times> (string \<times> ApiHistoryDoc) list" where
  "saveApiRequest now newId ctx args =
    (if \<not> truthy_string (authUserId ctx) then (Inl Unauthorized, apiHistory ctx)
     else (Inr newId,
           apiHistory ctx @
             [(newId, \<lparr>userId = the (authUserId ctx),
                       ApiHistoryDoc.name = SaveArgs.name args,
                       ApiHistoryDoc.url = SaveArgs.url args,
                       ApiHistoryDoc.reqMethod = SaveArgs.reqMethod args,
                       ApiHistoryDoc.headers = SaveArgs.headers args,
                       ApiHistoryDoc.body = SaveArgs.body args,
                       createdAt = now\<rparr>)]))"

section \<open>A small host for evaluating examples\<close>

text \<open>
  The theorems below hold for every host. The closed examples need one host to run on;
  \<open>example_host\<close> is a small one whose numbers are the integers and \<open>NaN\<close>. Its
  \<open>Number\<close> reads optionally signed decimal integers (surrounding white space allowed,
  the empty string being \<open>0\<close>) and returns \<open>NaN\<close> otherwise; its \<open>Date.parse\<close> reads the
  date-only forms \<open>YYYY\<close>, \<open>YYYY-MM\<close> and \<open>YYYY-MM-DD\<close> of the ECMAScript date-time
  string format and returns \<open>NaN\<close> otherwise; its \<open>JSON.stringify\<close> does not escape
  characters inside strings; its \<open>localeCompare\<close> compares code units. On the inputs of
  the examples these agree with the built-in functions of a JavaScript runtime.
\<close>

datatype rnum = Fin int | NaN

definition is_space :: "char \<Rightarrow> bool" where
  "is_space c = (c \<in> set [CHR 0x09, CHR 0x0A, CHR 0x0B, CHR 0x0C, CHR 0x0D, CHR 0x20])"

definition trim :: "string \<Rightarrow> string" where
  "trim s = rev (dropWhile is_space (rev (dropWhile is_space s)))"

definition ex_Number :: "string \<Rightarrow> rnum" where
  "ex_Number s =
    (case trim s of
       [] \<Rightarrow> Fin 0
     | c # cs \<Rightarrow>
         if c = CHR ''-'' \<and> cs \<noteq> [] \<and> list_all is_digit cs then Fin (- int (digits_value cs))
         else if c = CHR ''+'' \<and> cs \<noteq> [] \<and> list_all is_digit cs then Fin (int (digits_value cs))
         else if list_all is_digit (c # cs) then Fin (int (digits_value (c # cs)))
         else NaN)"

definition is_leap :: "int \<Rightarrow> bool" where
  "is_leap y = (y mod 4 = 0 \<and> (y mod 100 \<noteq> 0 \<or> y mod 400 = 0))"

definition days_in_month :: "int \<Rightarrow> int \<Rightarrow> int" where
  "days_in_month y m =
    (if m = 2 then (if is_leap y then 29 else 28)
     else if m \<in> {4, 6, 9, 11} then 30 else 31)"

text \<open>Days from 1970-01-01 to the given day of the proleptic Gregorian calendar.\<close>

definition days_from_civil :: "int \<Rightarrow> int \<Rightarrow> int \<Rightarrow> int" where
  "days_from_civil y m d =
    (let y' = (if m \<le> 2 then y - 1 else y);
         era = y' div 400;
         yoe = y' - era * 400;
         doy = (153 * ((m + 9) mod 12) + 2) div 5 + d - 1;
         doe = yoe * 365 + yoe div 4 - yoe div 100 + doy
     in era * 146097 + doe - 719468)"

definition ex_date :: "int \<Rightarrow> int \<Rightarrow> int \<Rightarrow> rnum" where
  "ex_date y m d =
    (if 1 \<le> m \<and> m \<le> 12 \<and> 1 \<le> d \<and> d \<le> days_in_month y m
     then Fin (days_from_civil y m d * 86400000) else NaN)"

definition match_whole :: "rx list \<Rightarrow> string \<Rightarrow> bool" where
  "match_whole rs s = (length s = length rs \<and> match_here rs s)"

definition ex_Date_parse :: "string \<Rightarrow> rnum" where
  "ex_Date_parse s =
    (if match_whole [Digit, Digit, Digit, Digit] s
     then ex_date (int (digits_value s)) 1 1
     else if match_whole [Digit, Digit, Digit, Digit, Lit CHR ''-'', Digit, Digit] s
     then ex_date (int (digits_value (take 4 s))) (int (digits_value (drop 5 s))) 1
     else if match_whole [Digit, Digit, Digit, Digit, Lit CHR ''-'', Digit, Digit,
                          Lit CHR ''-'', Digit, Digit] s
     then ex_date (int (digits_value (take 4 s))) (int (digits_value (take 2 (drop 5 s))))
            (int (digits_value (drop 8 s)))
     else NaN)"

fun ex_toString :: "rnum \<Rightarrow> string" where
  "ex_toString NaN = ''NaN''"
| "ex_toString (Fin i) = (if i < 0 then ''-'' @ show_nat (nat (- i)) else show_nat (nat i))"

fun ex_add :: "rnum \<Rightarrow> rnum \<Rightarrow> rnum" where
  "ex_add (Fin a) (Fin b) = Fin (a + b)"
| "ex_add _ _ = NaN"

definition quoted :: "string \<Rightarrow> string" where
  "quoted s = [CHR 0x22] @ s @ [CHR 0x22]"

fun ex_stringify :: "rnum json \<Rightarrow> string" where
  "ex_stringify JNull = ''null''"
| "ex_stringify (JBool b) = (if b then ''true'' else ''false'')"
| "ex_stringify (JNum n) = (if n = NaN then ''null'' else ex_toString n)"
| "ex_stringify (JStr s) = quoted s"
| "ex_stringify (JArr xs) = ''['' @ join_with '','' (map ex_stringify xs) @ '']''"
| "ex_stringify (JObj kvs) =
     ''{'' @ join_with '','' (map (\<lambda>(k, v). quoted k @ '':'' @ ex_stringify v) kvs) @ ''}''"

fun compare_strings :: "string \<Rightarrow> string \<Rightarrow> int" where
  "compare_strings [] [] = 0"
| "compare_strings [] (b # bs) = - 1"
| "compare_strings (a # as) [] = 1"
| "compare_strings (a # as) (b # bs) =
    (if (of_char a :: nat) < of_char b then - 1
     else if (of_char b :: nat) < of_char a then 1
     else compare_strings as bs)"

definition example_host :: "rnum host" where
  "example_host =
    \<lparr>Number = ex_Number,
     isNaN = (\<lambda>n. n = NaN),
     Date_parse = ex_Date_parse,
     JSON_stringify = ex_stringify,
     localeCompare = compare_strings,
     num_add = ex_add,
     num_zero = Fin 0,
     num_one = Fin 1,
     num_nan = NaN,
     num_toString = ex_toString,
     inherited_toString = (\<lambda>k. ''function '' @ k @ ''() { [native code] }'')\<rparr>"

section \<open>Notions used to state the properties\<close>

text \<open>
  \<open>descend v ks\<close> is the value reached from \<open>v\<close> by following the object keys \<open>ks\<close>
  in turn; every step goes through an object, never through an array.
\<close>

fun descend :: "'n json \<Rightarrow> string list \<Rightarrow> 'n json option" where
  "descend v [] = Some v"
| "descend (JObj kvs) (k # ks) = (case map_of kvs k of None \<Rightarrow> None | Some c \<Rightarrow> descend c ks)"
| "descend v (k # ks) = None"

text \<open>The dotted path of a list of keys; the root has the path \<open>root\<close>.\<close>

definition dotted_path :: "string list \<Rightarrow> string" where
  "dotted_path ks = (if ks = [] then ''root'' else join_with ''.'' ks)"

text \<open>
  A field description agrees with the sampled records when its sample value is the first
  value for its key, among the sampled records, that is neither \<open>undefined\<close> nor \<open>null\<close>,
  and its type is the type detected from that one value.
\<close>

definition from_first_sample :: "'n host \<Rightarrow> 'n json list \<Rightarrow> 'n FieldInfo \<Rightarrow> bool" where
  "from_first_sample h sampleData f =
    (\<exists>vs v. sampleAll h sampleData (FieldInfo.name f) = Inr vs
        \<and> List.find notNullish vs = Some v
        \<and> sampleValue f = v
        \<and> FieldInfo.type f = detectFieldType h [v])"

text \<open>No own property of an object holds an array.\<close>

definition array_free :: "'n jsobj \<Rightarrow> bool" where
  "array_free obj = (\<forall>v\<in>snd ` set (props obj). \<not> isArray v)"

text \<open>
  Both \<open>reduce\<close> callbacks have the same shape: look the key of the row up in the
  accumulator, create an entry when there is none, then update the entry. \<open>accumulate\<close>
  is that shape; the key, the new entry and the update of the group-by branch and of the
  pie branch follow.
\<close>

definition accumulate ::
  "('r \<Rightarrow> string) \<Rightarrow> ('r \<Rightarrow> 'a) \<Rightarrow> ('a \<Rightarrow> 'r \<Rightarrow> 'a) \<Rightarrow> (string \<times> 'a) list \<Rightarrow> 'r
     \<Rightarrow> (string \<times> 'a) list" where
  "accumulate keyf init upd acc item =
    (let acc' = (if acc_missing acc (keyf item) then prop_put (keyf item) (init item) acc
                 else acc)
     in case map_of acc' (keyf item) of
          None \<Rightarrow> acc'
        | Some row \<Rightarrow> prop_put (keyf item) (upd row item) acc')"

definition groupKey :: "'n host \<Rightarrow> ChartConfig \<Rightarrow> 'n jsobj \<Rightarrow> string" where
  "groupKey h config item =
     to_string h (js_get item (xAxis config)) @ ''_''
       @ to_string h (js_get item (the (groupBy config)))"

definition groupInit :: "'n host \<Rightarrow> ChartConfig \<Rightarrow> 'n jsobj \<Rightarrow> 'n jsobj" where
  "groupInit h config item =
     js_set (object_literal
               [(xAxis config, js_get item (xAxis config)),
                (yAxis config, Json (JNum (num_zero h))),
                (''count'', Json (JNum (num_zero h)))])
       (the (groupBy config)) (js_get item (the (groupBy config)))"

definition groupUpdate :: "'n host \<Rightarrow> ChartConfig \<Rightarrow> 'n jsobj \<Rightarrow> 'n jsobj \<Rightarrow> 'n jsobj" where
  "groupUpdate h config row item =
    (let row' = js_set row (yAxis config)
                  (js_add h (js_get row (yAxis config)) (js_get item (yAxis config)))
     in js_set row' ''count'' (js_add h (js_get row' ''count'') (Json (JNum (num_one h)))))"

definition pieKey :: "'n host \<Rightarrow> ChartConfig \<Rightarrow> 'n jsobj \<Rightarrow> string" where
  "pieKey h config item = to_string h (js_get item (xAxis config))"

definition pieInit :: "'n host \<Rightarrow> ChartConfig \<Rightarrow> 'n jsobj \<Rightarrow> 'n jsobj" where
  "pieInit h config item =
     object_literal [(''name'', js_get item (xAxis config)),
                     (''value'', Json (JNum (num_zero h)))]"

definition pieUpdate :: "'n host \<Rightarrow> ChartConfig \<Rightarrow> 'n jsobj \<Rightarrow> 'n jsobj \<Rightarrow> 'n jsobj" where
  "pieUpdate h config row item =
     js_set row ''value'' (js_add h (js_get row ''value'') (js_get item (yAxis config)))"

text \<open>
  The rows of a list that have the key \<open>K\<close>, and the entry that accumulating them
  yields: none when no row has the key, else the entry made for the first such row,
  updated with each of them in order.
\<close>

definition with_key :: "('r \<Rightarrow> string) \<Rightarrow> string \<Rightarrow> 'r list \<Rightarrow> 'r list" where
  "with_key keyf K items = filter (\<lambda>item. keyf item = K) items"

definition accumulated ::
  "('r \<Rightarrow> string) \<Rightarrow> ('r \<Rightarrow> 'a) \<Rightarrow> ('a \<Rightarrow> 'r \<Rightarrow> 'a) \<Rightarrow> 'r list \<Rightarrow> string \<Rightarrow> 'a option" where
  "accumulated keyf init upd items K =
    (case with_key keyf K items of
       [] \<Rightarrow> None
     | first # rest \<Rightarrow> Some (foldl upd (init first) (first # rest)))"

text \<open>The number held by a value (used where the value is known to be a number).\<close>

fun num_of :: "'n host \<Rightarrow> 'n jsval \<Rightarrow> 'n" where
  "num_of h (Json (JNum n)) = n"
| "num_of h v = num_nan h"

text \<open>
  The pair of X value and group value of a row, and the key that the group-by branch
  makes of such a pair.
\<close>

definition xg_pair :: "ChartConfig \<Rightarrow> 'n jsobj \<Rightarrow> 'n jsval \<times> 'n jsval" where
  "xg_pair config item = (js_get item (xAxis config), js_get item (the (groupBy config)))"

definition pair_key :: "'n host \<Rightarrow> 'n jsval \<times> 'n jsval \<Rightarrow> string" where
  "pair_key h p = to_string h (fst p) @ ''_'' @ to_string h (snd p)"

section \<open>Properties of the chart auto-configuration\<close>

lemma find_filter_first:
  "List.find P xs = Some d \<Longrightarrow> filter P xs \<noteq> [] \<and> filter P xs ! 0 = d"
  by (induction xs) (auto split: if_splits)

lemma suggestChartConfig_None:
  "suggestChartConfig flds = None \<longleftrightarrow>
     \<not> hasFieldOfType TNumber flds \<and> \<not> hasFieldOfType TString flds"
  by (auto simp: suggestChartConfig_def hasFieldOfType_def Let_def split: prod.splits)

text \<open>
  C1, as stated, fails: with a date field and a string field but no number field the
  suggested type is "table", not "line".
\<close>

theorem C1_counterexample:
  "hasFieldOfType TDate
     [\<lparr>FieldInfo.name = ''day'', FieldInfo.type = TDate, sampleValue = Json (JStr ''2024-01-01'' :: int json)\<rparr>,
      \<lparr>FieldInfo.name = ''city'', FieldInfo.type = TString, sampleValue = Json (JStr ''Oslo'')\<rparr>]
   \<and> map_option ChartConfig.type (suggestChartConfig
     [\<lparr>FieldInfo.name = ''day'', FieldInfo.type = TDate, sampleValue = Json (JStr ''2024-01-01'' :: int json)\<rparr>,
      \<lparr>FieldInfo.name = ''city'', FieldInfo.type = TString, sampleValue = Json (JStr ''Oslo'')\<rparr>])
     = Some Table"
  by (simp add: suggestChartConfig_def hasFieldOfType_def)

text \<open>
  C1 (amended): no configuration is suggested when there is neither a number field nor a
  string field; otherwise the suggested type is "line" when both a date field and a number
  field exist, "bar" when a number field but no date field exists, and "table" when no
  number field exists.
\<close>

theorem suggestChartConfig_type:
  "map_option ChartConfig.type (suggestChartConfig flds) =
     (if \<not> hasFieldOfType TNumber flds \<and> \<not> hasFieldOfType TString flds then None
      else Some (if hasFieldOfType TNumber flds
                 then (if hasFieldOfType TDate flds then Line else Bar)
                 else Table))"
  by (auto simp: suggestChartConfig_def hasFieldOfType_def Let_def split: prod.splits)

theorem suggestChartConfig_type_witness:
  "map_option ChartConfig.type (suggestChartConfig
     [\<lparr>FieldInfo.name = ''day'', FieldInfo.type = TDate, sampleValue = Json (JStr ''2024-01-01'' :: int json)\<rparr>,
      \<lparr>FieldInfo.name = ''sales'', FieldInfo.type = TNumber, sampleValue = Json (JNum 3)\<rparr>])
     = Some Line"
  using suggestChartConfig_type
    [of "[\<lparr>FieldInfo.name = ''day'', FieldInfo.type = TDate, sampleValue = Json (JStr ''2024-01-01'' :: int json)\<rparr>,
          \<lparr>FieldInfo.name = ''sales'', FieldInfo.type = TNumber, sampleValue = Json (JNum 3)\<rparr>]"]
  by (simp add: hasFieldOfType_def)

text \<open>
  C7, as stated, fails: a list whose only field is a date field gets no configuration at
  all, so no X-axis is picked.
\<close>

theorem C7_counterexample:
  "hasFieldOfType TDate
     [\<lparr>FieldInfo.name = ''day'', FieldInfo.type = TDate, sampleValue = Json (JStr ''2024-01-01'' :: int json)\<rparr>]
   \<and> suggestChartConfig
     [\<lparr>FieldInfo.name = ''day'', FieldInfo.type = TDate, sampleValue = Json (JStr ''2024-01-01'' :: int json)\<rparr>]
     = None"
  by (simp add: suggestChartConfig_def hasFieldOfType_def)

text \<open>
  C7 (amended): when the list has a date field and also a number field or a string field,
  the first date field is the default X-axis; when the list has a number field, the first
  number field is the default Y-axis.
\<close>

theorem suggestChartConfig_axes:
  "(\<forall>d. List.find (\<lambda>f. FieldInfo.type f = TDate) flds = Some d
        \<and> (hasFieldOfType TNumber flds \<or> hasFieldOfType TString flds)
      \<longrightarrow> (\<exists>c. suggestChartConfig flds = Some c \<and> xAxis c = FieldInfo.name d))
   \<and> (\<forall>n. List.find (\<lambda>f. FieldInfo.type f = TNumber) flds = Some n
      \<longrightarrow> (\<exists>c. suggestChartConfig flds = Some c \<and> yAxis c = FieldInfo.name n))"
proof (intro conjI allI impI)
  fix d
  assume a: "List.find (\<lambda>f. FieldInfo.type f = TDate) flds = Some d
    \<and> (hasFieldOfType TNumber flds \<or> hasFieldOfType TString flds)"
  then have d: "filter (\<lambda>f. FieldInfo.type f = TDate) flds \<noteq> []"
      "filter (\<lambda>f. FieldInfo.type f = TDate) flds ! 0 = d"
    using find_filter_first by fastforce+
  from a have "suggestChartConfig flds \<noteq> None"
    by (simp add: suggestChartConfig_None)
  then obtain c where c: "suggestChartConfig flds = Some c" by blast
  then have "xAxis c = FieldInfo.name d"
    using d by (auto simp: suggestChartConfig_def Let_def split: if_splits prod.splits)
  with c show "\<exists>c. suggestChartConfig flds = Some c \<and> xAxis c = FieldInfo.name d" by blast
next
  fix n
  assume "List.find (\<lambda>f. FieldInfo.type f = TNumber) flds = Some n"
  then have n: "filter (\<lambda>f. FieldInfo.type f = TNumber) flds \<noteq> []"
      "filter (\<lambda>f. FieldInfo.type f = TNumber) flds ! 0 = n"
    using find_filter_first by fastforce+
  then have "suggestChartConfig flds \<noteq> None"
    by (simp add: suggestChartConfig_None hasFieldOfType_def)
  then obtain c where c: "suggestChartConfig flds = Some c" by blast
  then have "yAxis c = FieldInfo.name n"
    using n by (auto simp: suggestChartConfig_def Let_def split: if_splits prod.splits)
  with c show "\<exists>c. suggestChartConfig flds = Some c \<and> yAxis c = FieldInfo.name n" by blast
qed

theorem suggestChartConfig_axes_witness:
  "map_option (\<lambda>c. (xAxis c, yAxis c)) (suggestChartConfig
     [\<lparr>FieldInfo.name = ''city'', FieldInfo.type = TString, sampleValue = Json (JStr ''Oslo'' :: int json)\<rparr>,
      \<lparr>FieldInfo.name = ''sales'', FieldInfo.type = TNumber, sampleValue = Json (JNum 3)\<rparr>,
      \<lparr>FieldInfo.name = ''day'', FieldInfo.type = TDate, sampleValue = Json (JStr ''2024-01-01'')\<rparr>,
      \<lparr>FieldInfo.name = ''until'', FieldInfo.type = TDate, sampleValue = Json (JStr ''2024-02-01'')\<rparr>])
     = Some (''day'', ''sales'')"
  using suggestChartConfig_axes
    [of "[\<lparr>FieldInfo.name = ''city'', FieldInfo.type = TString, sampleValue = Json (JStr ''Oslo'' :: int json)\<rparr>,
          \<lparr>FieldInfo.name = ''sales'', FieldInfo.type = TNumber, sampleValue = Json (JNum 3)\<rparr>,
          \<lparr>FieldInfo.name = ''day'', FieldInfo.type = TDate, sampleValue = Json (JStr ''2024-01-01'')\<rparr>,
          \<lparr>FieldInfo.name = ''until'', FieldInfo.type = TDate, sampleValue = Json (JStr ''2024-02-01'')\<rparr>]"]
  by (auto simp: hasFieldOfType_def)

section \<open>Properties of the array discovery\<close>

lemma join_with_prefix_step:
  "join_with sep ((a @ sep @ b) # ks) = join_with sep (a # b # ks)"
  by (cases ks) simp_all

text \<open>Below a prefix that is not empty, every key is appended, empty or not.\<close>

lemma findArrays_descend:
  "descend v ks = Some (JArr xs) \<Longrightarrow> p \<noteq> '''' \<Longrightarrow>
   (join_with ''.'' (p # ks), xs) \<in> set (findArrays v p)"
proof (induction ks arbitrary: v p)
  case Nil
  then show ?case by simp
next
  case (Cons k ks)
  from Cons.prems(1) obtain kvs c where v: "v = JObj kvs" and c: "map_of kvs k = Some c"
    and d: "descend c ks = Some (JArr xs)"
    by (cases v) (auto split: option.splits)
  have "p @ ''.'' @ k \<noteq> ''''" by simp
  with d have "(join_with ''.'' ((p @ ''.'' @ k) # ks), xs) \<in> set (findArrays c (p @ ''.'' @ k))"
    by (rule Cons.IH)
  then have mem: "(join_with ''.'' (p # k # ks), xs) \<in> set (findArrays c (p @ ''.'' @ k))"
    by (simp only: join_with_prefix_step)
  from c have "(k, c) \<in> set kvs" by (rule map_of_SomeD)
  with mem Cons.prems(2) have "(join_with ''.'' (p # k # ks), xs) \<in> set (findArrays (JObj kvs) p)"
    by (auto intro!: bexI [of _ "(k, c)"])
  with v show ?case by simp
qed

text \<open>
  C2, as stated, fails in two ways. An array is recorded but not searched, so an array
  nested inside another array is not returned: in the first value the array \<open>[1]\<close>
  under the key \<open>b\<close> is missing. And a leading empty key is dropped from the path: in
  the second value the array reached by the keys \<open>""\<close> and \<open>a\<close> is keyed \<open>a\<close>, while
  the dotted path of those keys is \<open>.a\<close>.
\<close>

theorem C2_counterexample:
  "findArrays (JObj [(''a'', JArr [JObj [(''b'', JArr [JNum (Fin 1)])]])]) ''''
     = [(''a'', [JObj [(''b'', JArr [JNum (Fin 1)])]])]
   \<and> descend (JObj [('''', JObj [(''a'', JArr [JNum (Fin 1)])])]) ['''', ''a'']
     = Some (JArr [JNum (Fin 1)])
   \<and> dotted_path ['''', ''a''] = ''.a''
   \<and> findArrays (JObj [('''', JObj [(''a'', JArr [JNum (Fin 1)])])]) ''''
     = [(''a'', [JNum (Fin 1)])]"
  by (simp add: dotted_path_def)

text \<open>
  C2 (amended): every array that is reached from the root through object members only
  (not from inside another array), along keys of which the first is not the empty string,
  is returned as a candidate dataset keyed by the dotted path of those keys; the root,
  when it is an array, is keyed "root".
\<close>

theorem findArrays_complete:
  "descend v ks = Some (JArr xs) \<Longrightarrow> ks = [] \<or> hd ks \<noteq> '''' \<Longrightarrow>
   (dotted_path ks, xs) \<in> set (findArrays v '''')"
proof (cases ks)
  case Nil
  assume "descend v ks = Some (JArr xs)"
  with Nil show ?thesis by (simp add: dotted_path_def)
next
  case (Cons k ks')
  assume d: "descend v ks = Some (JArr xs)" and h: "ks = [] \<or> hd ks \<noteq> ''''"
  from h Cons have k: "k \<noteq> ''''" by simp
  from d Cons obtain kvs c where v: "v = JObj kvs" and c: "map_of kvs k = Some c"
    and d': "descend c ks' = Some (JArr xs)"
    by (cases v) (auto split: option.splits)
  from d' k have mem: "(join_with ''.'' (k # ks'), xs) \<in> set (findArrays c k)"
    by (rule findArrays_descend)
  from c have "(k, c) \<in> set kvs" by (rule map_of_SomeD)
  with mem have "(join_with ''.'' (k # ks'), xs) \<in> set (findArrays (JObj kvs) '''')"
    by (auto intro!: bexI [of _ "(k, c)"])
  with v Cons show ?thesis by (simp add: dotted_path_def)
qed

theorem findArrays_complete_witness:
  "(''data.items'', [JNum (Fin 1), JNum (Fin 2)])
     \<in> set (findArrays (JObj [(''status'', JStr ''ok''),
                (''data'', JObj [(''items'', JArr [JNum (Fin 1), JNum (Fin 2)])])]) '''')
   \<and> (''b.'', [JNum (Fin 2)])
     \<in> set (findArrays (JObj [(''b'', JObj [('''', JArr [JNum (Fin 2)])])]) '''')"
  using findArrays_complete
    [of "JObj [(''status'', JStr ''ok''),
               (''data'', JObj [(''items'', JArr [JNum (Fin 1), JNum (Fin 2)])])]"
        "[''data'', ''items'']" "[JNum (Fin 1), JNum (Fin 2)]"]
    findArrays_complete
    [of "JObj [(''b'', JObj [('''', JArr [JNum (Fin 2)])])]"
        "[''b'', '''']" "[JNum (Fin 2)]"]
  by (simp add: dotted_path_def)

section \<open>Properties of the type detection\<close>

lemma detectFieldType_first: "detectFieldType h (v # vs) = detectFieldType h [v]"
  by (simp add: detectFieldType_def)

lemma detectFieldType_array: "detectFieldType h (v # vs) = TArray \<longleftrightarrow> isArray v"
  by (simp add: detectFieldType_def)

text \<open>
  C3, as stated, fails: a string that does not match the date pattern is still classified
  as a date when \<open>Date.parse\<close> accepts it. The string \<open>2020-01\<close> is not numeric, does
  not match the pattern, and is a date-only form that \<open>Date.parse\<close> reads.
\<close>

theorem C3_counterexample:
  "isNaN example_host (Number example_host ''2020-01'')
   \<and> \<not> dateRegex_test ''2020-01''
   \<and> detectFieldType example_host [Json (JStr ''2020-01'')] = TDate"
  by (simp add: detectFieldType_def dateRegex_test_def example_host_def ex_Number_def
      trim_def is_space_def is_digit_def ex_Date_parse_def match_whole_def ex_date_def
      digits_value_def digit_val_def days_in_month_def)

text \<open>
  C3 (amended): when the first sample value is a string, the field is a "number" exactly
  when the string coerces to a number; otherwise it is a "date" exactly when the string
  matches the date pattern or \<open>Date.parse\<close> does not return \<open>NaN\<close> for it; otherwise
  it is a "string".
\<close>

theorem detectFieldType_string:
  "detectFieldType h (Json (JStr s) # values) =
     (if \<not> isNaN h (Number h s) then TNumber
      else if dateRegex_test s \<or> \<not> isNaN h (Date_parse h s) then TDate
      else TString)"
  by (simp add: detectFieldType_def)

theorem detectFieldType_string_witness:
  "detectFieldType example_host [Json (JStr ''12/31/2024''), Json (JStr ''7'')] = TDate"
  using detectFieldType_string [of example_host "''12/31/2024''" "[Json (JStr ''7'')]"]
  by (simp add: dateRegex_test_def example_host_def ex_Number_def trim_def is_space_def
      is_digit_def)

section \<open>Properties of the field inference\<close>

subsection \<open>Sorting keeps the fields\<close>

lemma set_insert_sorted: "set (insert_sorted cmp x ys) = insert x (set ys)"
  by (induction ys) auto

lemma set_foldl_insert_sorted:
  "set (foldl (\<lambda>sorted x. insert_sorted cmp x sorted) acc xs) = set acc \<union> set xs"
  by (induction xs arbitrary: acc) (auto simp: set_insert_sorted)

lemma set_sort_with: "set (sort_with cmp xs) = set xs"
  by (simp add: sort_with_def set_foldl_insert_sorted)

subsection \<open>Each field comes from the first usable sample\<close>

lemma find_filter_nonempty:
  "filter P xs \<noteq> [] \<Longrightarrow> List.find P xs = Some (filter P xs ! 0)"
  by (induction xs) auto

lemma find_in_set: "List.find P xs = Some v \<Longrightarrow> v \<in> set xs"
  by (induction xs) (auto split: if_splits)

lemma detectFieldType_nonempty:
  "xs \<noteq> [] \<Longrightarrow> detectFieldType h xs = detectFieldType h [xs ! 0]"
  by (cases xs) (simp_all add: detectFieldType_def)

lemma new_field_from_first_sample:
  assumes "sampleAll h sampleData key = Inr vs" and "filter notNullish vs \<noteq> []"
  shows "from_first_sample h sampleData
           \<lparr>FieldInfo.name = key,
            FieldInfo.type = detectFieldType h (filter notNullish vs),
            sampleValue = filter notNullish vs ! 0\<rparr>"
proof -
  have "List.find notNullish vs = Some (filter notNullish vs ! 0)"
    using assms(2) by (rule find_filter_nonempty)
  moreover have "detectFieldType h (filter notNullish vs)
      = detectFieldType h [filter notNullish vs ! 0]"
    using assms(2) by (rule detectFieldType_nonempty)
  ultimately show ?thesis
    unfolding from_first_sample_def using assms(1) by auto
qed

lemma buildFields_from_first_sample:
  "buildFields h sampleData keys acc = Inr flds \<Longrightarrow>
   \<forall>f\<in>set acc. from_first_sample h sampleData f \<Longrightarrow>
   \<forall>f\<in>set flds. from_first_sample h sampleData f"
proof (induction keys arbitrary: acc)
  case Nil
  then show ?case by simp
next
  case (Cons key keys)
  from Cons.prems(1) obtain vs where vs: "sampleAll h sampleData key = Inr vs"
    by (auto split: sum.splits)
  show ?case
  proof (cases "filter notNullish vs = []")
    case True
    with Cons.prems(1) vs have "buildFields h sampleData keys acc = Inr flds" by simp
    then show ?thesis using Cons.prems(2) by (rule Cons.IH)
  next
    case False
    let ?f = "\<lparr>FieldInfo.name = key,
               FieldInfo.type = detectFieldType h (filter notNullish vs),
               sampleValue = filter notNullish vs ! 0\<rparr>"
    have "from_first_sample h sampleData ?f"
      using vs False by (rule new_field_from_first_sample)
    with Cons.prems(2) have acc': "\<forall>f\<in>set (acc @ [?f]). from_first_sample h sampleData f"
      by simp
    from Cons.prems(1) vs False
    have "buildFields h sampleData keys (acc @ [?f]) = Inr flds" by (simp add: Let_def)
    then show ?thesis using acc' by (rule Cons.IH)
  qed
qed

lemma analyzeFields_from_first_sample:
  assumes "analyzeFields h data = Inr flds"
  shows "\<forall>f\<in>set flds. from_first_sample h (take 5 data) f"
proof -
  from assms obtain allKeys built where
    b: "buildFields h (take 5 data) allKeys [] = Inr built" and
    f: "flds = sort_with (\<lambda>a b. localeCompare h (FieldInfo.name a) (FieldInfo.name b)) built"
    by (auto simp: analyzeFields_def Let_def split: sum.splits)
  from b have "\<forall>f\<in>set built. from_first_sample h (take 5 data) f"
    by (rule buildFields_from_first_sample) simp
  with f show ?thesis by (simp add: set_sort_with)
qed

subsection \<open>Every key with a usable value gets a field\<close>

lemma set_foldl_set_add: "set (foldl (\<lambda>ks k. set_add k ks) acc xs) = set acc \<union> set xs"
  by (induction xs arbitrary: acc) (auto simp: set_add_def)

lemma collectKeys_keeps:
  "collectKeys h items acc = Inr ks \<Longrightarrow> set acc \<subseteq> set ks"
proof (induction items arbitrary: acc)
  case Nil
  then show ?case by simp
next
  case (Cons item items)
  show ?case
  proof (cases "typeof (Json item) = TyObject \<and> item \<noteq> JNull")
    case True
    with Cons.prems obtain flattened where fl: "flattenData h item '''' = Inr flattened"
      by (cases "flattenData h item ''''") auto
    with True Cons.prems have
      "collectKeys h items (foldl (\<lambda>ks k. set_add k ks) acc (map fst (props flattened))) = Inr ks"
      by simp
    then have "set (foldl (\<lambda>ks k. set_add k ks) acc (map fst (props flattened))) \<subseteq> set ks"
      by (rule Cons.IH)
    then show ?thesis by (simp add: set_foldl_set_add)
  next
    case False
    with Cons.prems have "collectKeys h items acc = Inr ks" by auto
    then show ?thesis by (rule Cons.IH)
  qed
qed

lemma collectKeys_complete:
  "collectKeys h items acc = Inr ks \<Longrightarrow> item \<in> set items \<Longrightarrow>
   typeof (Json item) = TyObject \<Longrightarrow> item \<noteq> JNull \<Longrightarrow>
   flattenData h item '''' = Inr flattened \<Longrightarrow> fst ` set (props flattened) \<subseteq> set ks"
proof (induction items arbitrary: acc)
  case Nil
  then show ?case by simp
next
  case (Cons first items)
  show ?case
  proof (cases "item = first")
    case True
    with Cons.prems have
      "collectKeys h items (foldl (\<lambda>ks k. set_add k ks) acc (map fst (props flattened))) = Inr ks"
      by simp
    then have "set (foldl (\<lambda>ks k. set_add k ks) acc (map fst (props flattened))) \<subseteq> set ks"
      by (rule collectKeys_keeps)
    then show ?thesis by (simp add: set_foldl_set_add)
  next
    case False
    with Cons.prems(2) have mem: "item \<in> set items" by simp
    from Cons.prems(1) have "\<exists>acc'. collectKeys h items acc' = Inr ks"
      by (auto split: sum.splits if_splits)
    then obtain acc' where "collectKeys h items acc' = Inr ks" by blast
    then show ?thesis using mem Cons.prems(3-5) by (rule Cons.IH)
  qed
qed

lemma sampleAll_member:
  "sampleAll h sampleData key = Inr vs \<Longrightarrow> item \<in> set sampleData \<Longrightarrow>
   flattenData h item '''' = Inr flattened \<Longrightarrow> js_get flattened key \<in> set vs"
proof (induction sampleData arbitrary: vs)
  case Nil
  then show ?case by simp
next
  case (Cons first items)
  from Cons.prems(1) obtain fl vs' where
    fl: "flattenData h first '''' = Inr fl" and
    vs': "sampleAll h items key = Inr vs'" and
    vs: "vs = js_get fl key # vs'"
    by (auto split: sum.splits)
  show ?case
  proof (cases "item = first")
    case True
    with fl Cons.prems(3) vs show ?thesis by simp
  next
    case False
    with Cons.prems(2) have "item \<in> set items" by simp
    with vs' have "js_get flattened key \<in> set vs'" using Cons.prems(3) by (rule Cons.IH)
    with vs show ?thesis by simp
  qed
qed

lemma buildFields_keeps:
  "buildFields h sampleData keys acc = Inr flds \<Longrightarrow> set acc \<subseteq> set flds"
proof (induction keys arbitrary: acc)
  case Nil
  then show ?case by simp
next
  case (Cons key keys)
  from Cons.prems have "\<exists>acc'. buildFields h sampleData keys acc' = Inr flds
      \<and> set acc \<subseteq> set acc'"
    by (auto simp: Let_def split: sum.splits if_splits)
  then obtain acc' where
    "buildFields h sampleData keys acc' = Inr flds" and "set acc \<subseteq> set acc'"
    by blast
  then show ?case using Cons.IH by blast
qed

lemma buildFields_complete:
  "buildFields h sampleData keys acc = Inr flds \<Longrightarrow> k \<in> set keys \<Longrightarrow>
   \<exists>vs. sampleAll h sampleData k = Inr vs
      \<and> (filter notNullish vs \<noteq> [] \<longrightarrow> (\<exists>f\<in>set flds. FieldInfo.name f = k))"
proof (induction keys arbitrary: acc)
  case Nil
  then show ?case by simp
next
  case (Cons key keys)
  from Cons.prems(1) obtain vs where vs: "sampleAll h sampleData key = Inr vs"
    by (auto split: sum.splits)
  show ?case
  proof (cases "k = key")
    case True
    show ?thesis
    proof (cases "filter notNullish vs = []")
      case True
      with \<open>k = key\<close> vs show ?thesis by simp
    next
      case False
      let ?f = "\<lparr>FieldInfo.name = key,
                 FieldInfo.type = detectFieldType h (filter notNullish vs),
                 sampleValue = filter notNullish vs ! 0\<rparr>"
      from Cons.prems(1) vs False
      have "buildFields h sampleData keys (acc @ [?f]) = Inr flds" by (simp add: Let_def)
      then have "set (acc @ [?f]) \<subseteq> set flds" by (rule buildFields_keeps)
      then have "?f \<in> set flds" by simp
      moreover have "FieldInfo.name ?f = k" using \<open>k = key\<close> by simp
      ultimately have "\<exists>f\<in>set flds. FieldInfo.name f = k" by blast
      with \<open>k = key\<close> vs show ?thesis by simp
    qed
  next
    case False
    with Cons.prems(2) have mem: "k \<in> set keys" by simp
    from Cons.prems(1) vs have "\<exists>acc'. buildFields h sampleData keys acc' = Inr flds"
      by (auto simp: Let_def split: if_splits)
    then obtain acc' where "buildFields h sampleData keys acc' = Inr flds" by blast
    then show ?thesis using mem by (rule Cons.IH)
  qed
qed

text \<open>
  A key for which some sampled record (an object or an array) holds a value other than
  \<open>null\<close> gets a field; and for a key that is not the name of an inherited member,
  what \<open>flattenData(item)[key]\<close> gives is the record's own value, or \<open>undefined\<close>
  when the record has none.
\<close>

lemma analyzeFields_complete:
  assumes a: "analyzeFields h data = Inr flds"
    and item: "item \<in> set (take 5 data)" "typeof (Json item) = TyObject" "item \<noteq> JNull"
    and fl: "flattenData h item '''' = Inr flattened"
    and v: "map_of (props flattened) k = Some v" "notNullish v"
  shows "\<exists>f\<in>set flds. FieldInfo.name f = k"
proof -
  from a obtain allKeys built where
    c: "collectKeys h (take 5 data) [] = Inr allKeys" and
    b: "buildFields h (take 5 data) allKeys [] = Inr built" and
    f: "flds = sort_with (\<lambda>a b. localeCompare h (FieldInfo.name a) (FieldInfo.name b)) built"
    by (auto simp: analyzeFields_def Let_def split: sum.splits)
  from v(1) have "k \<in> fst ` set (props flattened)"
    by (metis domI dom_map_of_conv_image_fst)
  with collectKeys_complete [OF c item fl] have k: "k \<in> set allKeys" by blast
  from buildFields_complete [OF b k] obtain vs where
    vs: "sampleAll h (take 5 data) k = Inr vs" and
    imp: "filter notNullish vs \<noteq> [] \<longrightarrow> (\<exists>f\<in>set built. FieldInfo.name f = k)"
    by blast
  from sampleAll_member [OF vs item(1) fl] v have "v \<in> set vs"
    by (simp add: js_get_def)
  with v(2) have "filter notNullish vs \<noteq> []" by (auto simp: filter_empty_conv)
  with imp have "\<exists>f\<in>set built. FieldInfo.name f = k" by blast
  with f show ?thesis by (simp add: set_sort_with)
qed

lemma js_get_own:
  "k \<notin> set inherited_names \<Longrightarrow>
   js_get obj k = (case map_of (props obj) k of Some v \<Rightarrow> v | None \<Rightarrow> Undefined)"
  by (simp add: js_get_def split: option.splits)

subsection \<open>Flattened records hold no arrays\<close>

lemma set_insert_index: "set (insert_index i k v ps) = insert (k, v) (set ps)"
  by (induction ps) (auto split: option.splits if_splits)

lemma set_prop_insert: "set (prop_insert k v ps) = insert (k, v) (set ps)"
  by (simp add: prop_insert_def set_insert_index split: option.splits)

lemma set_prop_put:
  "set (prop_put k v ps) \<subseteq> insert (k, v) (set ps)"
proof (cases "k \<in> fst ` set ps")
  case True
  then have "prop_put k v ps = map (\<lambda>(k', v'). if k' = k then (k', v) else (k', v')) ps"
    by (simp add: prop_put_def)
  then show ?thesis by (auto split: if_splits)
next
  case False
  then show ?thesis by (simp add: prop_put_def set_prop_insert)
qed

lemma snd_set_prop_put: "snd ` set (prop_put k v ps) \<subseteq> insert v (snd ` set ps)"
  using set_prop_put [of k v ps] by force

lemma prop_put_no_array:
  "\<forall>w\<in>snd ` set ps. \<not> isArray w \<Longrightarrow> \<not> isArray v \<Longrightarrow>
   \<forall>w\<in>snd ` set (prop_put k v ps). \<not> isArray w"
  using snd_set_prop_put [of k v ps] by blast

lemma array_free_js_set:
  assumes "array_free obj" and "\<not> isArray v"
  shows "array_free (js_set obj k v)"
proof -
  have p: "\<forall>w\<in>snd ` set (prop_put k v (props obj)). \<not> isArray w"
    using assms unfolding array_free_def by (rule prop_put_no_array)
  have "js_set obj k v = obj\<lparr>props := prop_put k v (props obj)\<rparr>
      \<or> js_set obj k v = obj\<lparr>has_proto := False\<rparr> \<or> js_set obj k v = obj"
    unfolding js_set_def by presburger
  then show ?thesis
  proof (elim disjE)
    assume "js_set obj k v = obj\<lparr>props := prop_put k v (props obj)\<rparr>"
    then show ?thesis using p unfolding array_free_def by simp
  next
    assume "js_set obj k v = obj\<lparr>has_proto := False\<rparr>"
    then show ?thesis using assms(1) unfolding array_free_def by simp
  next
    assume "js_set obj k v = obj"
    then show ?thesis using assms(1) by simp
  qed
qed

lemma array_free_foldl_js_set:
  "array_free target \<Longrightarrow> \<forall>kv\<in>set kvs. \<not> isArray (snd kv) \<Longrightarrow>
   array_free (foldl (\<lambda>obj (k, v). js_set obj k v) target kvs)"
proof (induction kvs arbitrary: target)
  case Nil
  then show ?case by simp
next
  case (Cons kv kvs)
  obtain k v where kv: "kv = (k, v)" by (cases kv)
  with Cons.prems have "array_free (js_set target k v)"
    by (simp add: array_free_js_set)
  moreover from Cons.prems(2) have "\<forall>kv\<in>set kvs. \<not> isArray (snd kv)" by simp
  ultimately have "array_free (foldl (\<lambda>obj (k, v). js_set obj k v) (js_set target k v) kvs)"
    by (rule Cons.IH)
  with kv show ?case by simp
qed

lemma array_free_object_assign:
  assumes "array_free target" and "array_free source"
  shows "array_free (object_assign target source)"
proof -
  from assms(2) have "\<forall>kv\<in>set (props source). \<not> isArray (snd kv)"
    unfolding array_free_def by blast
  with assms(1) show ?thesis
    unfolding object_assign_def by (rule array_free_foldl_js_set)
qed

lemma array_free_empty_obj: "array_free empty_obj"
  by (simp add: array_free_def empty_obj_def)

lemma array_free_flattenProps:
  "flattenProps h callable es prefix flattened = Inr flattened' \<Longrightarrow>
   array_free flattened \<Longrightarrow> array_free flattened'"
proof (induction h callable es prefix flattened arbitrary: flattened'
    rule: flattenProps.induct)
  case (1 h callable prefix flattened)
  then show ?case by simp
next
  case (2 h callable key rest prefix flattened)
  then show ?case by (auto simp: array_free_js_set split: if_splits)
next
  case (3 h callable key xs rest prefix flattened)
  then show ?case by (auto simp: array_free_js_set split: if_splits)
next
  case (4 h callable key kvs rest prefix flattened)
  from "4.prems"(1) have c: callable by (auto split: if_splits)
  with "4.prems"(1) obtain inner where
    inner: "flattenProps h (map_of kvs ''hasOwnProperty'' = None) kvs
              (if prefix \<noteq> '''' then prefix @ ''.'' @ key else key) empty_obj = Inr inner" and
    rest: "flattenProps h callable rest prefix (object_assign flattened inner) = Inr flattened'"
    by (auto split: sum.splits)
  from c inner have "array_free inner"
    using "4.IH"(1) array_free_empty_obj by blast
  with "4.prems"(2) have "array_free (object_assign flattened inner)"
    by (simp add: array_free_object_assign)
  with c inner rest show ?case using "4.IH"(2) by blast
qed (auto simp: array_free_js_set split: if_splits)

lemma array_free_flattenData:
  "flattenData h obj prefix = Inr flattened \<Longrightarrow> array_free flattened"
  unfolding flattenData_def
  by (erule array_free_flattenProps) (rule array_free_empty_obj)

lemma js_get_not_array: "array_free obj \<Longrightarrow> \<not> isArray (js_get obj k)"
  by (auto simp: array_free_def js_get_def split: option.splits dest!: map_of_SomeD)

lemma sampleAll_not_array:
  "sampleAll h sampleData key = Inr vs \<Longrightarrow> \<forall>v\<in>set vs. \<not> isArray v"
proof (induction sampleData arbitrary: vs)
  case Nil
  then show ?case by simp
next
  case (Cons item items)
  from Cons.prems obtain flattened vs' where
    fl: "flattenData h item '''' = Inr flattened" and
    vs': "sampleAll h items key = Inr vs'" and
    vs: "vs = js_get flattened key # vs'"
    by (auto split: sum.splits)
  from fl have "\<not> isArray (js_get flattened key)"
    by (simp add: array_free_flattenData js_get_not_array)
  with Cons.IH [OF vs'] vs show ?case by simp
qed


text \<open>
  \<open>analyzeFields\<close> looks at the first five records only (its result is the result on
  those five), and in its result every field's sample value is the first value that
  \<open>flattenData(item)[key]\<close> gives for the field's key, among those records, that is
  neither \<open>undefined\<close> nor \<open>null\<close>, and the field's type is the type detected from that
  value alone.
\<close>

lemma analyzeFields_samples:
  "analyzeFields h data = analyzeFields h (take 5 data)
   \<and> (\<forall>flds. analyzeFields h data = Inr flds \<longrightarrow>
         (\<forall>f\<in>set flds. from_first_sample h (take 5 data) f))"
  using analyzeFields_from_first_sample [of h data]
  by (simp add: analyzeFields_def)

lemma analyzeFields_samples_example:
  "from_first_sample example_host
     (take 5 [JObj [(''price'', JNull), (''city'', JStr ''Oslo'')],
              JObj [(''price'', JStr ''7''), (''city'', JStr ''Rome'')]])
     \<lparr>FieldInfo.name = ''price'', FieldInfo.type = TNumber, sampleValue = Json (JStr ''7'')\<rparr>"
proof -
  have "analyzeFields example_host
          [JObj [(''price'', JNull), (''city'', JStr ''Oslo'')],
           JObj [(''price'', JStr ''7''), (''city'', JStr ''Rome'')]]
        = Inr [\<lparr>FieldInfo.name = ''city'', FieldInfo.type = TString,
                 sampleValue = Json (JStr ''Oslo'')\<rparr>,
               \<lparr>FieldInfo.name = ''price'', FieldInfo.type = TNumber,
                 sampleValue = Json (JStr ''7'')\<rparr>]"
    by code_simp
  with analyzeFields_samples
    [of example_host "[JObj [(''price'', JNull), (''city'', JStr ''Oslo'')],
                       JObj [(''price'', JStr ''7''), (''city'', JStr ''Rome'')]]"]
  show ?thesis by simp
qed

text \<open>
  C6 at a failing input. The first record has no key \<open>constructor\<close>; the second has
  the value \<open>"5"\<close> for it, which alone would be typed "number". Reading
  \<open>flattenData(item)["constructor"]\<close> for the first record gives the inherited function
  instead of \<open>undefined\<close>; it passes the filter, becomes the first sample, and the field
  is typed "string" from it.
\<close>

theorem analyzeFields_inherited_sample:
  "analyzeFields example_host [JObj [], JObj [(''constructor'', JStr ''5'')]]
     = Inr [\<lparr>FieldInfo.name = ''constructor'', FieldInfo.type = TString,
              sampleValue = Inherited ''constructor''\<rparr>]
   \<and> detectFieldType example_host [Json (JStr ''5'')] = TNumber"
  by code_simp

text \<open>
  C9: no field in the result of \<open>analyzeFields\<close> has the type "array".
\<close>

theorem analyzeFields_no_array:
  assumes "analyzeFields h data = Inr flds"
  shows "\<forall>f\<in>set flds. FieldInfo.type f \<noteq> TArray"
proof
  fix f
  assume "f \<in> set flds"
  with assms have "from_first_sample h (take 5 data) f"
    using analyzeFields_from_first_sample by blast
  then obtain vs v where
    vs: "sampleAll h (take 5 data) (FieldInfo.name f) = Inr vs" and
    v: "List.find notNullish vs = Some v" and
    t: "FieldInfo.type f = detectFieldType h [v]"
    by (auto simp: from_first_sample_def)
  from v have "v \<in> set vs" by (rule find_in_set)
  with vs have "\<not> isArray v" using sampleAll_not_array by blast
  with t show "FieldInfo.type f \<noteq> TArray" by (simp add: detectFieldType_array)
qed

theorem analyzeFields_no_array_witness:
  "analyzeFields example_host [JObj [(''id'', JNum (Fin 1)), (''tags'', JArr [JStr ''a''])]]
     = Inr [\<lparr>FieldInfo.name = ''id'', FieldInfo.type = TNumber,
              sampleValue = Json (JNum (Fin 1))\<rparr>,
            \<lparr>FieldInfo.name = ''tags'', FieldInfo.type = TString,
              sampleValue = Json (JStr (''['' @ quoted ''a'' @ '']''))\<rparr>]
   \<and> FieldInfo.type \<lparr>FieldInfo.name = ''tags'', FieldInfo.type = TString,
                       sampleValue = Json (JStr (''['' @ quoted ''a'' @ '']'') :: rnum json)\<rparr> \<noteq> TArray"
proof -
  have e: "analyzeFields example_host
             [JObj [(''id'', JNum (Fin 1)), (''tags'', JArr [JStr ''a''])]]
     = Inr [\<lparr>FieldInfo.name = ''id'', FieldInfo.type = TNumber,
              sampleValue = Json (JNum (Fin 1))\<rparr>,
            \<lparr>FieldInfo.name = ''tags'', FieldInfo.type = TString,
              sampleValue = Json (JStr (''['' @ quoted ''a'' @ '']''))\<rparr>]"
    by code_simp
  from e analyzeFields_no_array [OF e] show ?thesis by simp
qed

section \<open>Properties of the chart rows\<close>

subsection \<open>Reading back a written property\<close>

lemma map_of_insert_index:
  "k \<notin> fst ` set ps \<Longrightarrow> map_of (insert_index i k v ps) k = Some v"
  by (induction ps) (auto split: option.splits)

lemma map_of_prop_insert:
  "k \<notin> fst ` set ps \<Longrightarrow> map_of (prop_insert k v ps) k = Some v"
proof (cases "array_index k")
  case None
  assume "k \<notin> fst ` set ps"
  then have "map_of ps k = None" by (simp add: map_of_eq_None_iff)
  with None show ?thesis by (simp add: prop_insert_def map_add_def)
next
  case (Some i)
  assume "k \<notin> fst ` set ps"
  with Some show ?thesis by (simp add: prop_insert_def map_of_insert_index)
qed

lemma map_of_update_in_place:
  "k \<in> fst ` set ps \<Longrightarrow>
   map_of (map (\<lambda>(k', v'). if k' = k then (k', v) else (k', v')) ps) k = Some v"
  by (induction ps) auto

lemma map_of_prop_put: "map_of (prop_put k v ps) k = Some v"
  by (simp add: prop_put_def map_of_prop_insert map_of_update_in_place)

lemma js_get_js_set_same:
  assumes "k \<noteq> ''__proto__''"
  shows "js_get (js_set obj k v) k = v"
proof -
  from assms have "js_set obj k v = obj\<lparr>props := prop_put k v (props obj)\<rparr>"
    by (simp add: js_set_def)
  then show ?thesis by (simp add: js_get_def map_of_prop_put)
qed

lemma map_of_insert_index_other:
  "k' \<noteq> k \<Longrightarrow> map_of (insert_index i k v ps) k' = map_of ps k'"
  by (induction ps) (auto split: option.splits)

lemma map_of_prop_insert_other:
  "k' \<noteq> k \<Longrightarrow> map_of (prop_insert k v ps) k' = map_of ps k'"
  by (simp add: prop_insert_def map_of_insert_index_other map_add_def split: option.splits)

lemma map_of_update_in_place_other:
  "k' \<noteq> k \<Longrightarrow>
   map_of (map (\<lambda>(a, b). if a = k then (a, v) else (a, b)) ps) k' = map_of ps k'"
  by (induction ps) auto

lemma map_of_prop_put_other: "k' \<noteq> k \<Longrightarrow> map_of (prop_put k v ps) k' = map_of ps k'"
  by (simp add: prop_put_def map_of_prop_insert_other map_of_update_in_place_other)

lemma js_get_js_set_other:
  assumes "k' \<noteq> k" and "k' \<notin> set inherited_names"
  shows "js_get (js_set obj k v) k' = js_get obj k'"
proof -
  have "js_set obj k v = obj\<lparr>props := prop_put k v (props obj)\<rparr>
      \<or> js_set obj k v = obj\<lparr>has_proto := False\<rparr> \<or> js_set obj k v = obj"
    unfolding js_set_def by presburger
  then show ?thesis
    using assms by (auto simp: js_get_def map_of_prop_put_other)
qed

lemma inherited_proto: "k \<notin> set inherited_names \<Longrightarrow> k \<noteq> ''__proto__''"
  by (auto simp: inherited_names_def)

lemma js_get_js_set:
  "k' \<notin> set inherited_names \<Longrightarrow>
   js_get (js_set obj k v) k' = (if k' = k then v else js_get obj k')"
  using inherited_proto [of k']
  by (cases "k' = k") (simp_all add: js_get_js_set_other js_get_js_set_same)

lemma js_get_empty_obj: "k \<notin> set inherited_names \<Longrightarrow> js_get empty_obj k = Undefined"
  by (simp add: js_get_def empty_obj_def)

lemma own_after_prop_put: "k \<in> fst ` set (prop_put k v ps)"
  using map_of_prop_put [of k v ps] by (metis domI dom_map_of_conv_image_fst)

lemma own_kept_by_prop_put: "k' \<in> fst ` set ps \<Longrightarrow> k' \<in> fst ` set (prop_put k v ps)"
proof (cases "k' = k")
  case True
  then show ?thesis by (simp add: own_after_prop_put)
next
  case False
  assume "k' \<in> fst ` set ps"
  then obtain w where "map_of ps k' = Some w"
    by (metis domD dom_map_of_conv_image_fst)
  with False have "map_of (prop_put k v ps) k' = Some w"
    by (simp add: map_of_prop_put_other)
  then show ?thesis by (metis domI dom_map_of_conv_image_fst)
qed

lemma own_after_js_set:
  "k \<noteq> ''__proto__'' \<Longrightarrow> k \<in> fst ` set (props (js_set obj k v))"
  by (simp add: js_set_def own_after_prop_put)

lemma js_get_js_set_own:
  assumes "k' \<noteq> k" and "k' \<in> fst ` set (props obj)"
  shows "js_get (js_set obj k v) k' = js_get obj k'"
proof -
  from assms(2) obtain w where w: "map_of (props obj) k' = Some w"
    by (metis domD dom_map_of_conv_image_fst)
  have "js_set obj k v = obj\<lparr>props := prop_put k v (props obj)\<rparr>
      \<or> js_set obj k v = obj\<lparr>has_proto := False\<rparr> \<or> js_set obj k v = obj"
    unfolding js_set_def by presburger
  then show ?thesis
    using assms(1) w by (auto simp: js_get_def map_of_prop_put_other)
qed

subsection \<open>The intermediate list\<close>

lemma mapItems_total:
  "\<forall>item\<in>set data. flattenData h item '''' \<noteq> Inl TypeError \<Longrightarrow>
   \<exists>results. mapItems h config data = Inr results"
proof (induction data)
  case Nil
  then show ?case by simp
next
  case (Cons item items)
  then obtain results where r: "mapItems h config items = Inr results" by auto
  from Cons.prems have "flattenData h item '''' \<noteq> Inl TypeError" by simp
  then obtain flattened where "flattenData h item '''' = Inr flattened"
    by (cases "flattenData h item ''''") (auto intro: error.exhaust)
  then obtain result where "processItem h config item = Inr result"
    by (simp add: processItem_def Let_def)
  with r show ?case by simp
qed

lemma processed_keepItem:
  "processed h data config = Inr rows \<Longrightarrow> \<forall>row\<in>set rows. keepItem config row"
  by (auto simp: processed_def split: sum.splits)

lemma processItem_coerces:
  assumes "flattenData h item '''' = Inr flattened"
    and "js_get flattened (yAxis config) = Json (JStr s)"
    and "\<not> isNaN h (Number h s)"
    and "yAxis config \<noteq> ''__proto__''"
    and "\<not> truthy_string (groupBy config) \<or> the (groupBy config) \<noteq> yAxis config"
  shows "\<exists>row. processItem h config item = Inr row
           \<and> js_get row (yAxis config) = Json (JNum (Number h s))"
proof -
  let ?result = "js_set (js_set empty_obj (xAxis config) (js_get flattened (xAxis config)))
                   (yAxis config) (Json (JNum (Number h s)))"
  have y: "js_get ?result (yAxis config) = Json (JNum (Number h s))"
    using assms(4) by (rule js_get_js_set_same)
  have own: "yAxis config \<in> fst ` set (props ?result)"
    using assms(4) by (rule own_after_js_set)
  show ?thesis
  proof (cases "truthy_string (groupBy config)")
    case False
    with assms(1-3) y show ?thesis by (simp add: processItem_def Let_def)
  next
    case True
    with assms(5) have "yAxis config \<noteq> the (groupBy config)" by auto
    then have "js_get (js_set ?result (the (groupBy config))
                  (js_get flattened (the (groupBy config)))) (yAxis config)
        = js_get ?result (yAxis config)"
      using own by (rule js_get_js_set_own)
    with True assms(1-3) y show ?thesis by (simp add: processItem_def Let_def)
  qed
qed

lemma mapItems_rows:
  "mapItems h config data = Inr results \<Longrightarrow>
   \<forall>result\<in>set results. \<exists>item\<in>set data. processItem h config item = Inr result"
proof (induction data arbitrary: results)
  case Nil
  then show ?case by simp
next
  case (Cons item items)
  from Cons.prems obtain result rest where
    r: "processItem h config item = Inr result" and
    rs: "mapItems h config items = Inr rest" and
    res: "results = result # rest"
    by (auto split: sum.splits)
  from Cons.IH [OF rs] r res show ?case by auto
qed

lemma processed_rows_from_items:
  assumes "processed h data config = Inr rows"
  shows "\<forall>row\<in>set rows. \<exists>item\<in>set data. processItem h config item = Inr row"
proof -
  from assms obtain results where
    m: "mapItems h config data = Inr results" and
    f: "rows = filter (keepItem config) results"
    by (auto simp: processed_def split: sum.splits)
  from mapItems_rows [OF m] f show ?thesis by simp
qed

lemma processItem_keeps_only_complete:
  assumes fl: "flattenData h item '''' = Inr flattened"
    and row: "processItem h config item = Inr row"
    and keep: "keepItem config row"
    and x: "xAxis config \<notin> set inherited_names"
    and y: "yAxis config \<notin> set inherited_names"
  shows "js_get flattened (xAxis config) \<noteq> Undefined
    \<and> (typeof (js_get flattened (yAxis config)) = TyNumber
       \<or> (typeof (js_get flattened (yAxis config)) = TyString
          \<and> \<not> isNaN h (Number h (to_string h (js_get flattened (yAxis config))))))"
proof -
  from keep have kx: "js_get row (xAxis config) \<noteq> Undefined"
    and ky: "typeof (js_get row (yAxis config)) = TyNumber"
    by (simp_all add: keepItem_def)
  from fl row have r: "row =
    (let result = js_set empty_obj (xAxis config) (js_get flattened (xAxis config));
         yValue = js_get flattened (yAxis config);
         yValue' = (if typeof yValue = TyString \<and> \<not> isNaN h (Number h (to_string h yValue))
                    then Json (JNum (Number h (to_string h yValue))) else yValue);
         result' = js_set result (yAxis config) yValue'
     in if truthy_string (groupBy config)
        then js_set result' (the (groupBy config)) (js_get flattened (the (groupBy config)))
        else result')"
    by (auto simp: processItem_def Let_def)
  have "js_get flattened (xAxis config) \<noteq> Undefined"
  proof
    assume u: "js_get flattened (xAxis config) = Undefined"
    have "js_get row (xAxis config) = Undefined"
      unfolding r Let_def using u x by (auto simp: js_get_js_set js_get_empty_obj)
    with kx show False by simp
  qed
  moreover have "typeof (js_get flattened (yAxis config)) = TyNumber
       \<or> (typeof (js_get flattened (yAxis config)) = TyString
          \<and> \<not> isNaN h (Number h (to_string h (js_get flattened (yAxis config)))))"
    using ky unfolding r Let_def using y
    by (auto simp: js_get_js_set split: if_splits)
  ultimately show ?thesis by simp
qed

text \<open>
  What the intermediate list \<open>processed\<close> holds. Every row of it is made from one of the
  input records, has an X value other than \<open>undefined\<close> and has a Y value of type
  number; missing or non-numeric values never raise an error (the list exists whenever
  every record can be flattened); in the plain case (no group-by, not a pie chart) the
  returned rows are exactly that list; a Y value that is a numeric string enters the row
  as the number \<open>Number\<close> gives for it (unless the group-by field is the Y field); and,
  for axis names that are not names of inherited members, a record whose row is kept has
  an X value and has a Y value that is a number or a numeric string.
\<close>

lemma processed_rows:
  "(\<forall>rows. processed h data config = Inr rows \<longrightarrow>
       (\<forall>row\<in>set rows. (\<exists>item\<in>set data. processItem h config item = Inr row)
                       \<and> js_get row (xAxis config) \<noteq> Undefined
                       \<and> typeof (js_get row (yAxis config)) = TyNumber))
   \<and> ((\<forall>item\<in>set data. flattenData h item '''' \<noteq> Inl TypeError) \<longrightarrow>
       (\<exists>rows. processed h data config = Inr rows))
   \<and> (\<not> truthy_string (groupBy config) \<and> ChartConfig.type config \<noteq> Pie \<longrightarrow>
       processDataForChart h data config = processed h data config)
   \<and> (\<forall>item flattened s.
         flattenData h item '''' = Inr flattened
         \<and> js_get flattened (yAxis config) = Json (JStr s)
         \<and> \<not> isNaN h (Number h s)
         \<and> yAxis config \<noteq> ''__proto__''
         \<and> (\<not> truthy_string (groupBy config) \<or> the (groupBy config) \<noteq> yAxis config) \<longrightarrow>
         (\<exists>row. processItem h config item = Inr row
                \<and> js_get row (yAxis config) = Json (JNum (Number h s))))
   \<and> (\<forall>item flattened row.
         flattenData h item '''' = Inr flattened
         \<and> processItem h config item = Inr row
         \<and> keepItem config row
         \<and> xAxis config \<notin> set inherited_names
         \<and> yAxis config \<notin> set inherited_names \<longrightarrow>
         js_get flattened (xAxis config) \<noteq> Undefined
         \<and> (typeof (js_get flattened (yAxis config)) = TyNumber
            \<or> (typeof (js_get flattened (yAxis config)) = TyString
               \<and> \<not> isNaN h (Number h (to_string h (js_get flattened (yAxis config)))))))"
proof (intro conjI allI impI ballI)
  fix rows row
  assume p: "processed h data config = Inr rows" and r: "row \<in> set rows"
  from p r show "\<exists>item\<in>set data. processItem h config item = Inr row"
    using processed_rows_from_items by blast
  from p r have k: "keepItem config row" using processed_keepItem by blast
  from k show "js_get row (xAxis config) \<noteq> Undefined" by (simp add: keepItem_def)
  from k show "typeof (js_get row (yAxis config)) = TyNumber" by (simp add: keepItem_def)
next
  assume "\<forall>item\<in>set data. flattenData h item '''' \<noteq> Inl TypeError"
  then obtain results where "mapItems h config data = Inr results"
    using mapItems_total by blast
  then show "\<exists>rows. processed h data config = Inr rows"
    by (simp add: processed_def)
next
  assume "\<not> truthy_string (groupBy config) \<and> ChartConfig.type config \<noteq> Pie"
  then show "processDataForChart h data config = processed h data config"
    by (simp add: processDataForChart_def split: sum.splits)
next
  fix item flattened s
  assume "flattenData h item '''' = Inr flattened
    \<and> js_get flattened (yAxis config) = Json (JStr s)
    \<and> \<not> isNaN h (Number h s)
    \<and> yAxis config \<noteq> ''__proto__''
    \<and> (\<not> truthy_string (groupBy config) \<or> the (groupBy config) \<noteq> yAxis config)"
  then show "\<exists>row. processItem h config item = Inr row
               \<and> js_get row (yAxis config) = Json (JNum (Number h s))"
    using processItem_coerces [of h item flattened config s] by blast
next
  fix item flattened row
  assume a: "flattenData h item '''' = Inr flattened
    \<and> processItem h config item = Inr row
    \<and> keepItem config row
    \<and> xAxis config \<notin> set inherited_names
    \<and> yAxis config \<notin> set inherited_names"
  then have "js_get flattened (xAxis config) \<noteq> Undefined
    \<and> (typeof (js_get flattened (yAxis config)) = TyNumber
       \<or> (typeof (js_get flattened (yAxis config)) = TyString
          \<and> \<not> isNaN h (Number h (to_string h (js_get flattened (yAxis config))))))"
    using processItem_keeps_only_complete [of h item flattened config row] by blast
  then show "js_get flattened (xAxis config) \<noteq> Undefined"
    and "typeof (js_get flattened (yAxis config)) = TyNumber
       \<or> (typeof (js_get flattened (yAxis config)) = TyString
          \<and> \<not> isNaN h (Number h (to_string h (js_get flattened (yAxis config)))))"
    by simp_all
qed

lemma processed_rows_example:
  "processDataForChart example_host
     [JObj [(''month'', JStr ''Jan''), (''sales'', JStr ''3'')],
      JObj [(''sales'', JNum (Fin 4))],
      JObj [(''month'', JStr ''Mar''), (''sales'', JStr ''n/a'')]]
     \<lparr>ChartConfig.type = Bar, xAxis = ''month'', yAxis = ''sales'', groupBy = None,
      title = ''sales by month''\<rparr>
   = Inr [\<lparr>props = [(''month'', Json (JStr ''Jan'')), (''sales'', Json (JNum (Fin 3)))],
           has_proto = True\<rparr>]
   \<and> js_get \<lparr>props = [(''month'', Json (JStr ''Jan'')), (''sales'', Json (JNum (Fin 3)))],
              has_proto = True\<rparr> ''month'' \<noteq> (Undefined :: rnum jsval)
   \<and> typeof (js_get \<lparr>props = [(''month'', Json (JStr ''Jan'')),
                                (''sales'', Json (JNum (Fin 3)))],
                      has_proto = True\<rparr> ''sales'') = TyNumber"
proof -
  have e: "processed example_host
     [JObj [(''month'', JStr ''Jan''), (''sales'', JStr ''3'')],
      JObj [(''sales'', JNum (Fin 4))],
      JObj [(''month'', JStr ''Mar''), (''sales'', JStr ''n/a'')]]
     \<lparr>ChartConfig.type = Bar, xAxis = ''month'', yAxis = ''sales'', groupBy = None,
      title = ''sales by month''\<rparr>
   = Inr [\<lparr>props = [(''month'', Json (JStr ''Jan'')), (''sales'', Json (JNum (Fin 3)))],
           has_proto = True\<rparr>]"
    by code_simp
  with processed_rows
    [of example_host
        "[JObj [(''month'', JStr ''Jan''), (''sales'', JStr ''3'')],
          JObj [(''sales'', JNum (Fin 4))],
          JObj [(''month'', JStr ''Mar''), (''sales'', JStr ''n/a'')]]"
        "\<lparr>ChartConfig.type = Bar, xAxis = ''month'', yAxis = ''sales'', groupBy = None,
          title = ''sales by month''\<rparr>"]
  show ?thesis by (simp add: truthy_string_def)
qed

text \<open>
  C10 at a failing input. The X-axis is the field \<open>constructor\<close>, which the first
  record has and the second record lacks. Reading \<open>flattened["constructor"]\<close> for the
  second record gives the inherited function instead of \<open>undefined\<close>, so the record
  with the missing X is not dropped: its row is returned, with that function as X value.
\<close>

theorem processDataForChart_keeps_missing_x:
  "processDataForChart example_host
     [JObj [(''constructor'', JStr ''north''), (''y'', JNum (Fin 2))],
      JObj [(''y'', JNum (Fin 1))]]
     \<lparr>ChartConfig.type = Bar, xAxis = ''constructor'', yAxis = ''y'', groupBy = None,
      title = ''y by constructor''\<rparr>
   = Inr [\<lparr>props = [(''constructor'', Json (JStr ''north'')), (''y'', Json (JNum (Fin 2)))],
           has_proto = True\<rparr>,
          \<lparr>props = [(''constructor'', Inherited ''constructor''), (''y'', Json (JNum (Fin 1)))],
           has_proto = True\<rparr>]"
  by code_simp

section \<open>Properties of saving a request\<close>

text \<open>
  C8: without an authenticated user id (\<open>getAuthUserId\<close> gives \<open>null\<close>, or an empty
  id) \<open>saveApiRequest\<close> throws "Unauthorized" and leaves the table as it was; with a
  user id it inserts exactly one record, and that record carries the user id.
\<close>

theorem saveApiRequest_authorized:
  "(\<not> truthy_string (authUserId ctx) \<longrightarrow>
      saveApiRequest now newId ctx args = (Inl Unauthorized, apiHistory ctx))
   \<and> (\<forall>u. authUserId ctx = Some u \<and> u \<noteq> '''' \<longrightarrow>
        (\<exists>doc. saveApiRequest now newId ctx args
                  = (Inr newId, apiHistory ctx @ [(newId, doc)])
               \<and> userId doc = u))"
  by (simp add: saveApiRequest_def truthy_string_def)

theorem saveApiRequest_authorized_witness:
  "saveApiRequest 1700000000000 ''doc1'' \<lparr>authUserId = None, apiHistory = []\<rparr>
     \<lparr>SaveArgs.name = ''ping'', SaveArgs.url = ''https://example.org'', SaveArgs.reqMethod = GET,
      SaveArgs.headers = [], SaveArgs.body = None\<rparr>
   = (Inl Unauthorized, [])
   \<and> (\<exists>doc. saveApiRequest 1700000000000 ''doc1''
                \<lparr>authUserId = Some ''user7'', apiHistory = []\<rparr>
                \<lparr>SaveArgs.name = ''ping'', SaveArgs.url = ''https://example.org'',
                 SaveArgs.reqMethod = GET, SaveArgs.headers = [], SaveArgs.body = None\<rparr>
              = (Inr ''doc1'', [(''doc1'', doc)])
            \<and> userId doc = ''user7'')"
  using saveApiRequest_authorized
    [of "\<lparr>authUserId = None, apiHistory = []\<rparr>" 1700000000000 "''doc1''"
        "\<lparr>SaveArgs.name = ''ping'', SaveArgs.url = ''https://example.org'',
          SaveArgs.reqMethod = GET, SaveArgs.headers = [], SaveArgs.body = None\<rparr>"]
    saveApiRequest_authorized
    [of "\<lparr>authUserId = Some ''user7'', apiHistory = []\<rparr>" 1700000000000 "''doc1''"
        "\<lparr>SaveArgs.name = ''ping'', SaveArgs.url = ''https://example.org'',
          SaveArgs.reqMethod = GET, SaveArgs.headers = [], SaveArgs.body = None\<rparr>"]
  by (simp add: truthy_string_def)

section \<open>Properties of the two accumulations\<close>

subsection \<open>Property order keeps keys apart\<close>

lemma map_fst_update_in_place:
  "map fst (map (\<lambda>(k', v'). if k' = k then (k', v) else (k', v')) ps) = map fst ps"
  by (induction ps) auto

lemma fst_set_prop_put: "fst ` set (prop_put k v ps) = insert k (fst ` set ps)"
proof (cases "k \<in> fst ` set ps")
  case True
  have "fst ` set (map (\<lambda>(k', v'). if k' = k then (k', v) else (k', v')) ps) = fst ` set ps"
    using map_fst_update_in_place [of k v ps] by (metis list.set_map)
  with True show ?thesis by (auto simp: prop_put_def)
next
  case False
  then show ?thesis by (simp add: prop_put_def set_prop_insert)
qed

lemma distinct_insert_index:
  "k \<notin> fst ` set ps \<Longrightarrow> distinct (map fst ps) \<Longrightarrow> distinct (map fst (insert_index i k v ps))"
proof (induction ps)
  case Nil
  then show ?case by simp
next
  case (Cons p ps)
  obtain a b where p: "p = (a, b)" by (cases p)
  from Cons have ih: "distinct (map fst (insert_index i k v ps))" by simp
  have "fst ` set (insert_index i k v ps) = insert k (fst ` set ps)"
    by (simp add: set_insert_index)
  with Cons.prems p ih show ?case
    by (auto split: option.splits)
qed

lemma distinct_prop_put:
  assumes "distinct (map fst ps)"
  shows "distinct (map fst (prop_put k v ps))"
proof (cases "k \<in> fst ` set ps")
  case True
  then have "prop_put k v ps = map (\<lambda>(k', v'). if k' = k then (k', v) else (k', v')) ps"
    by (simp add: prop_put_def)
  then have "map fst (prop_put k v ps) = map fst ps"
    by (simp only: map_fst_update_in_place)
  with assms show ?thesis by simp
next
  case False
  with assms show ?thesis
    by (auto simp: prop_put_def prop_insert_def distinct_insert_index split: option.splits)
qed

subsection \<open>What an accumulation holds under each key\<close>

lemma map_of_accumulate_other:
  "K \<noteq> keyf item \<Longrightarrow> map_of (accumulate keyf init upd acc item) K = map_of acc K"
  by (simp add: accumulate_def Let_def map_of_prop_put_other split: option.splits)

lemma map_of_accumulate_same:
  assumes "keyf item \<notin> set inherited_names"
  shows "map_of (accumulate keyf init upd acc item) (keyf item)
     = Some (upd (case map_of acc (keyf item) of None \<Rightarrow> init item | Some row \<Rightarrow> row) item)"
proof (cases "map_of acc (keyf item)")
  case None
  with assms have "acc_missing acc (keyf item)" by (simp add: acc_missing_def)
  then show ?thesis using None by (simp add: accumulate_def Let_def map_of_prop_put)
next
  case (Some row)
  then have "\<not> acc_missing acc (keyf item)" by (simp add: acc_missing_def)
  then show ?thesis using Some by (simp add: accumulate_def Let_def map_of_prop_put)
qed

lemma accumulate_inherited:
  "keyf item \<in> set inherited_names \<Longrightarrow> map_of acc (keyf item) = None \<Longrightarrow>
   accumulate keyf init upd acc item = acc"
  by (simp add: accumulate_def acc_missing_def)

lemma with_key_Cons:
  "with_key keyf K (item # items)
     = (if keyf item = K then item # with_key keyf K items else with_key keyf K items)"
  by (simp add: with_key_def)

lemma map_of_foldl_accumulate:
  "K \<notin> set inherited_names \<Longrightarrow>
   map_of (foldl (accumulate keyf init upd) acc items) K
     = (case map_of acc K of
          Some row \<Rightarrow> Some (foldl upd row (with_key keyf K items))
        | None \<Rightarrow> accumulated keyf init upd items K)"
proof (induction items arbitrary: acc)
  case Nil
  then show ?case by (simp add: with_key_def accumulated_def split: option.splits)
next
  case (Cons item items)
  let ?acc = "accumulate keyf init upd acc item"
  have ih: "map_of (foldl (accumulate keyf init upd) ?acc items) K
     = (case map_of ?acc K of
          Some row \<Rightarrow> Some (foldl upd row (with_key keyf K items))
        | None \<Rightarrow> accumulated keyf init upd items K)"
    using Cons.prems by (rule Cons.IH)
  show ?case
  proof (cases "keyf item = K")
    case True
    with Cons.prems have
      "map_of ?acc K = Some (upd (case map_of acc K of None \<Rightarrow> init item | Some row \<Rightarrow> row) item)"
      using map_of_accumulate_same [of keyf item init upd acc] by simp
    with ih True show ?thesis
      by (simp add: with_key_Cons accumulated_def split: option.splits)
  next
    case False
    then have "map_of ?acc K = map_of acc K"
      using map_of_accumulate_other [of K keyf item init upd acc] by simp
    with ih False show ?thesis
      by (simp add: with_key_Cons accumulated_def split: option.splits)
  qed
qed

lemma map_of_foldl_accumulate_inherited:
  "K \<in> set inherited_names \<Longrightarrow> map_of acc K = None \<Longrightarrow>
   map_of (foldl (accumulate keyf init upd) acc items) K = None"
proof (induction items arbitrary: acc)
  case Nil
  then show ?case by simp
next
  case (Cons item items)
  have "map_of (accumulate keyf init upd acc item) K = None"
  proof (cases "keyf item = K")
    case True
    with Cons.prems show ?thesis by (simp add: accumulate_inherited)
  next
    case False
    with Cons.prems(2) show ?thesis
      using map_of_accumulate_other [of K keyf item init upd acc] by simp
  qed
  with Cons.prems(1) show ?case by (simp add: Cons.IH)
qed

lemma distinct_accumulate:
  "distinct (map fst acc) \<Longrightarrow> distinct (map fst (accumulate keyf init upd acc item))"
  by (simp add: accumulate_def Let_def distinct_prop_put split: option.splits)

lemma distinct_foldl_accumulate:
  "distinct (map fst acc) \<Longrightarrow> distinct (map fst (foldl (accumulate keyf init upd) acc items))"
  by (induction items arbitrary: acc) (simp_all add: distinct_accumulate)

text \<open>
  With the empty accumulator: the keys are distinct, a key is present exactly when some
  row has it and it is not the name of an inherited member, and the entry under a key is
  the one accumulated from the rows with that key.
\<close>

lemma foldl_accumulate_empty:
  "distinct (map fst (foldl (accumulate keyf init upd) [] items))"
  "map_of (foldl (accumulate keyf init upd) [] items) K
     = (if K \<in> set inherited_names then None else accumulated keyf init upd items K)"
  using distinct_foldl_accumulate [of "[]" keyf init upd items]
    map_of_foldl_accumulate [of K keyf init upd "[]" items]
    map_of_foldl_accumulate_inherited [of K "[]" keyf init upd items]
  by auto

lemma accumulated_None: "accumulated keyf init upd items K = None \<longleftrightarrow> K \<notin> keyf ` set items"
proof -
  have "with_key keyf K items = [] \<longleftrightarrow> K \<notin> keyf ` set items"
    by (auto simp: with_key_def filter_empty_conv)
  then show ?thesis
    by (cases "with_key keyf K items") (simp_all add: accumulated_def)
qed

lemma keys_foldl_accumulate_empty:
  "fst ` set (foldl (accumulate keyf init upd) [] items)
     = keyf ` set items - set inherited_names"
proof -
  have "\<And>K. K \<in> fst ` set (foldl (accumulate keyf init upd) [] items)
      \<longleftrightarrow> K \<in> keyf ` set items - set inherited_names"
  proof -
    fix K
    have "K \<in> fst ` set (foldl (accumulate keyf init upd) [] items)
        \<longleftrightarrow> map_of (foldl (accumulate keyf init upd) [] items) K \<noteq> None"
      by (simp add: map_of_eq_None_iff)
    also have "\<dots> \<longleftrightarrow> K \<notin> set inherited_names \<and> accumulated keyf init upd items K \<noteq> None"
      by (simp add: foldl_accumulate_empty(2))
    also have "\<dots> \<longleftrightarrow> K \<in> keyf ` set items - set inherited_names"
      by (auto simp: accumulated_None)
    finally show "K \<in> fst ` set (foldl (accumulate keyf init upd) [] items)
        \<longleftrightarrow> K \<in> keyf ` set items - set inherited_names" .
  qed
  then show ?thesis by blast
qed

subsection \<open>The group-by branch\<close>

text \<open>
  For a row whose key is not the name of an inherited member, the step is the
  accumulation step: no built-in object is involved.
\<close>

lemma groupStep_accumulate:
  assumes "truthy_string (groupBy config)"
    and "groupKey h config item \<notin> set inherited_names"
  shows "groupStep h config acc item
     = Inr (accumulate (groupKey h config) (groupInit h config) (groupUpdate h config) acc item)"
proof (cases "map_of acc (groupKey h config item)")
  case None
  with assms(2) have "acc_missing acc (groupKey h config item)" by (simp add: acc_missing_def)
  with assms(1) show ?thesis
    unfolding groupStep_def accumulate_def groupInit_def groupUpdate_def Let_def
    by (simp add: groupKey_def map_of_prop_put)
next
  case (Some row)
  then have "\<not> acc_missing acc (groupKey h config item)" by (simp add: acc_missing_def)
  with assms(1) Some show ?thesis
    unfolding groupStep_def accumulate_def groupInit_def groupUpdate_def Let_def
    by (simp add: groupKey_def)
qed

lemma reduceRows_total:
  "(\<And>acc item. item \<in> set items \<Longrightarrow> f acc item = Inr (g acc item)) \<Longrightarrow>
   reduceRows f acc items = Inr (foldl g acc items)"
  by (induction items arbitrary: acc) simp_all

lemma reduceRows_groupStep_accumulate:
  assumes "truthy_string (groupBy config)"
    and "groupKey h config ` set items \<inter> set inherited_names = {}"
  shows "reduceRows (groupStep h config) acc items
     = Inr (foldl (accumulate (groupKey h config) (groupInit h config) (groupUpdate h config))
              acc items)"
proof (rule reduceRows_total)
  fix acc item
  assume "item \<in> set items"
  with assms(2) have "groupKey h config item \<notin> set inherited_names" by auto
  with assms(1) show "groupStep h config acc item
     = Inr (accumulate (groupKey h config) (groupInit h config) (groupUpdate h config) acc item)"
    by (rule groupStep_accumulate)
qed

lemma js_add_numbers:
  "js_add h (Json (JNum a)) (Json (JNum b)) = Json (JNum (num_add h a b))"
  by (simp add: js_add_def)

lemma typeof_number: "typeof v = TyNumber \<Longrightarrow> v = Json (JNum (num_of h v))"
  by (cases v rule: typeof.cases) (simp_all split: if_splits)

lemma count_not_inherited: "''count'' \<notin> set inherited_names"
  by (simp add: inherited_names_def)

lemma js_get_object_literal3:
  assumes "k \<notin> set inherited_names"
  shows "js_get (object_literal [(a, u), (b, v), (c, w)]) k
    = (if k = c then w else if k = b then v else if k = a then u else Undefined)"
proof -
  have "map_of (prop_put c w (prop_put b v (prop_put a u []))) k
    = (if k = c then Some w else if k = b then Some v else if k = a then Some u else None)"
    by (simp add: map_of_prop_put map_of_prop_put_other)
  with assms show ?thesis by (simp add: object_literal_def js_get_def)
qed

lemma groupInit_y:
  assumes "yAxis config \<notin> set inherited_names" and "yAxis config \<noteq> ''count''"
    and "the (groupBy config) \<noteq> yAxis config"
  shows "js_get (groupInit h config item) (yAxis config) = Json (JNum (num_zero h))"
  using assms by (simp add: groupInit_def js_get_js_set js_get_object_literal3)

lemma groupInit_count:
  assumes "the (groupBy config) \<noteq> ''count''"
  shows "js_get (groupInit h config item) ''count'' = Json (JNum (num_zero h))"
  using assms count_not_inherited
  by (simp add: groupInit_def js_get_js_set js_get_object_literal3)

lemma groupUpdate_y:
  assumes "yAxis config \<notin> set inherited_names" and "yAxis config \<noteq> ''count''"
  shows "js_get (groupUpdate h config row item) (yAxis config)
    = js_add h (js_get row (yAxis config)) (js_get item (yAxis config))"
  using assms by (simp add: groupUpdate_def Let_def js_get_js_set)

lemma groupUpdate_count:
  assumes "yAxis config \<noteq> ''count''"
  shows "js_get (groupUpdate h config row item) ''count''
    = js_add h (js_get row ''count'') (Json (JNum (num_one h)))"
  using assms count_not_inherited by (simp add: groupUpdate_def Let_def js_get_js_set)

lemma foldl_groupUpdate_y:
  assumes "yAxis config \<notin> set inherited_names" and "yAxis config \<noteq> ''count''"
  shows "\<forall>item\<in>set items. typeof (js_get item (yAxis config)) = TyNumber \<Longrightarrow>
   js_get row (yAxis config) = Json (JNum n) \<Longrightarrow>
   js_get (foldl (groupUpdate h config) row items) (yAxis config)
     = Json (JNum (foldl (num_add h) n (map (\<lambda>item. num_of h (js_get item (yAxis config))) items)))"
proof (induction items arbitrary: row n)
  case Nil
  then show ?case by simp
next
  case (Cons item items)
  from Cons.prems(1) have "typeof (js_get item (yAxis config)) = TyNumber" by simp
  then have i: "js_get item (yAxis config) = Json (JNum (num_of h (js_get item (yAxis config))))"
    by (rule typeof_number)
  have "js_get (groupUpdate h config row item) (yAxis config)
      = js_add h (Json (JNum n)) (Json (JNum (num_of h (js_get item (yAxis config)))))"
    using groupUpdate_y [OF assms, of h row item] Cons.prems(2) i by simp
  then have "js_get (groupUpdate h config row item) (yAxis config)
      = Json (JNum (num_add h n (num_of h (js_get item (yAxis config)))))"
    by (simp add: js_add_numbers)
  moreover from Cons.prems(1)
  have "\<forall>item\<in>set items. typeof (js_get item (yAxis config)) = TyNumber" by simp
  ultimately have "js_get (foldl (groupUpdate h config) (groupUpdate h config row item) items)
        (yAxis config)
      = Json (JNum (foldl (num_add h) (num_add h n (num_of h (js_get item (yAxis config))))
          (map (\<lambda>item. num_of h (js_get item (yAxis config))) items)))"
    by (rule Cons.IH [rotated])
  then show ?case by simp
qed

lemma foldl_groupUpdate_count:
  assumes "yAxis config \<noteq> ''count''"
  shows "js_get row ''count'' = Json (JNum n) \<Longrightarrow>
   js_get (foldl (groupUpdate h config) row items) ''count''
     = Json (JNum (((\<lambda>c. num_add h c (num_one h)) ^^ length items) n))"
proof (induction items arbitrary: row n)
  case Nil
  then show ?case by simp
next
  case (Cons item items)
  have "js_get (groupUpdate h config row item) ''count'' = Json (JNum (num_add h n (num_one h)))"
    using groupUpdate_count [OF assms, of h row item] Cons.prems
    by (simp add: js_add_numbers)
  then have "js_get (foldl (groupUpdate h config) (groupUpdate h config row item) items) ''count''
      = Json (JNum (((\<lambda>c. num_add h c (num_one h)) ^^ length items) (num_add h n (num_one h))))"
    by (rule Cons.IH)
  then show ?case
    using funpow_swap1 [of "\<lambda>c. num_add h c (num_one h)" "length items" n] by simp
qed

text \<open>
  With a group-by field set, and no retained row whose key is the name of an inherited
  member, the result is the list of the entries of the accumulation: one entry for each
  key that some retained row has, accumulated from the retained rows with that key.
\<close>

lemma processDataForChart_grouped:
  assumes "truthy_string (groupBy config)" and "processed h data config = Inr rows"
    and "groupKey h config ` set rows \<inter> set inherited_names = {}"
  shows "\<exists>grouped. processDataForChart h data config = Inr (map snd grouped)
     \<and> distinct (map fst grouped)
     \<and> fst ` set grouped = groupKey h config ` set rows
     \<and> (\<forall>K row. (K, row) \<in> set grouped \<longrightarrow>
           accumulated (groupKey h config) (groupInit h config) (groupUpdate h config) rows K
             = Some row)"
proof -
  let ?acc = "accumulate (groupKey h config) (groupInit h config) (groupUpdate h config)"
  let ?grouped = "foldl ?acc [] rows"
  from assms have "processDataForChart h data config = Inr (map snd ?grouped)"
    by (simp add: processDataForChart_def reduceRows_groupStep_accumulate)
  moreover have d: "distinct (map fst ?grouped)"
    by (rule foldl_accumulate_empty(1))
  moreover have "fst ` set ?grouped = groupKey h config ` set rows"
    using keys_foldl_accumulate_empty [of "groupKey h config" "groupInit h config"
        "groupUpdate h config" rows] assms(3)
    by (simp add: Diff_triv)
  moreover have "\<forall>K row. (K, row) \<in> set ?grouped \<longrightarrow>
      accumulated (groupKey h config) (groupInit h config) (groupUpdate h config) rows K
        = Some row"
  proof (intro allI impI)
    fix K row
    assume "(K, row) \<in> set ?grouped"
    with d have "map_of ?grouped K = Some row" by simp
    then show "accumulated (groupKey h config) (groupInit h config) (groupUpdate h config)
        rows K = Some row"
      by (simp add: foldl_accumulate_empty(2) split: if_splits)
  qed
  ultimately show ?thesis by blast
qed

text \<open>
  The Y field of an entry is \<open>0\<close> plus the Y values of its rows, added in order, and its
  count is \<open>0\<close> incremented once for each of them, provided the Y field is not named
  \<open>count\<close> or like an inherited member, and the group-by field is neither the Y field
  nor named \<open>count\<close>.
\<close>

lemma accumulated_group_values:
  assumes y: "yAxis config \<notin> set inherited_names" "yAxis config \<noteq> ''count''"
    and g: "the (groupBy config) \<noteq> yAxis config" "the (groupBy config) \<noteq> ''count''"
    and nums: "\<forall>item\<in>set rows. typeof (js_get item (yAxis config)) = TyNumber"
    and acc: "accumulated (groupKey h config) (groupInit h config) (groupUpdate h config) rows K
              = Some row"
  shows "js_get row (yAxis config)
      = Json (JNum (foldl (num_add h) (num_zero h)
          (map (\<lambda>item. num_of h (js_get item (yAxis config)))
            (with_key (groupKey h config) K rows))))"
    and "js_get row ''count''
      = Json (JNum (((\<lambda>c. num_add h c (num_one h))
          ^^ length (with_key (groupKey h config) K rows)) (num_zero h)))"
proof -
  from acc obtain first rest where
    w: "with_key (groupKey h config) K rows = first # rest" and
    row: "row = foldl (groupUpdate h config) (groupInit h config first) (first # rest)"
    by (auto simp: accumulated_def split: list.splits)
  have "set (with_key (groupKey h config) K rows) \<subseteq> set rows"
    by (auto simp: with_key_def)
  with nums w have n: "\<forall>item\<in>set (first # rest). typeof (js_get item (yAxis config)) = TyNumber"
    by auto
  have "js_get (foldl (groupUpdate h config) (groupInit h config first) (first # rest))
          (yAxis config)
      = Json (JNum (foldl (num_add h) (num_zero h)
          (map (\<lambda>item. num_of h (js_get item (yAxis config))) (first # rest))))"
    using y n groupInit_y [OF y g(1), of h first] by (rule foldl_groupUpdate_y)
  with w row show "js_get row (yAxis config)
      = Json (JNum (foldl (num_add h) (num_zero h)
          (map (\<lambda>item. num_of h (js_get item (yAxis config)))
            (with_key (groupKey h config) K rows))))"
    by simp
  have "js_get (foldl (groupUpdate h config) (groupInit h config first) (first # rest)) ''count''
      = Json (JNum (((\<lambda>c. num_add h c (num_one h)) ^^ length (first # rest)) (num_zero h)))"
    using y(2) groupInit_count [OF g(2), of h first] by (rule foldl_groupUpdate_count)
  with w row show "js_get row ''count''
      = Json (JNum (((\<lambda>c. num_add h c (num_one h))
          ^^ length (with_key (groupKey h config) K rows)) (num_zero h)))"
    by simp
qed

text \<open>
  When distinct pairs of X value and group value among the retained rows always give
  distinct keys, and no key is the name of an inherited member, there is exactly one
  output row for each distinct pair, and the rows accumulated into it are the retained
  rows with that pair.
\<close>

lemma groupKey_pair: "groupKey h config item = pair_key h (xg_pair config item)"
  by (simp add: groupKey_def pair_key_def xg_pair_def)

lemma processDataForChart_grouped_pairs:
  assumes t: "truthy_string (groupBy config)" and p: "processed h data config = Inr rows"
    and inj: "inj_on (pair_key h) (xg_pair config ` set rows)"
    and ninh: "groupKey h config ` set rows \<inter> set inherited_names = {}"
  shows "\<exists>grouped. processDataForChart h data config = Inr (map snd grouped)
     \<and> length grouped = card (xg_pair config ` set rows)
     \<and> (\<forall>K row. (K, row) \<in> set grouped \<longrightarrow>
           (\<exists>item\<in>set rows. K = groupKey h config item
              \<and> with_key (groupKey h config) K rows
                  = filter (\<lambda>r. xg_pair config r = xg_pair config item) rows
              \<and> accumulated (groupKey h config) (groupInit h config) (groupUpdate h config)
                    rows K = Some row))"
proof -
  from processDataForChart_grouped [OF t p ninh] obtain grouped where
    r: "processDataForChart h data config = Inr (map snd grouped)" and
    d: "distinct (map fst grouped)" and
    k: "fst ` set grouped = groupKey h config ` set rows" and
    a: "\<forall>K row. (K, row) \<in> set grouped \<longrightarrow>
          accumulated (groupKey h config) (groupInit h config) (groupUpdate h config) rows K
            = Some row"
    by blast
  have img: "groupKey h config ` set rows = pair_key h ` (xg_pair config ` set rows)"
    by (auto simp: groupKey_pair)
  from d have "length grouped = card (set (map fst grouped))"
    by (metis distinct_card length_map)
  also have "\<dots> = card (groupKey h config ` set rows)"
    using k by simp
  also have "\<dots> = card (xg_pair config ` set rows)"
    unfolding img using inj by (rule card_image)
  finally have len: "length grouped = card (xg_pair config ` set rows)" .
  have "\<forall>K row. (K, row) \<in> set grouped \<longrightarrow>
           (\<exists>item\<in>set rows. K = groupKey h config item
              \<and> with_key (groupKey h config) K rows
                  = filter (\<lambda>r. xg_pair config r = xg_pair config item) rows
              \<and> accumulated (groupKey h config) (groupInit h config) (groupUpdate h config)
                    rows K = Some row)"
  proof (intro allI impI)
    fix K row
    assume m: "(K, row) \<in> set grouped"
    then have "K \<in> fst ` set grouped" by force
    with k obtain item where i: "item \<in> set rows" and K: "K = groupKey h config item" by auto
    have "\<And>r. r \<in> set rows \<Longrightarrow>
        (groupKey h config r = K) = (xg_pair config r = xg_pair config item)"
    proof -
      fix r
      assume "r \<in> set rows"
      with i inj have "(pair_key h (xg_pair config r) = pair_key h (xg_pair config item))
          = (xg_pair config r = xg_pair config item)"
        by (auto dest: inj_onD)
      with K show "(groupKey h config r = K) = (xg_pair config r = xg_pair config item)"
        by (simp add: groupKey_pair)
    qed
    then have "with_key (groupKey h config) K rows
        = filter (\<lambda>r. xg_pair config r = xg_pair config item) rows"
      unfolding with_key_def by (intro filter_cong) simp_all
    with i K a m show "\<exists>item\<in>set rows. K = groupKey h config item
        \<and> with_key (groupKey h config) K rows
            = filter (\<lambda>r. xg_pair config r = xg_pair config item) rows
        \<and> accumulated (groupKey h config) (groupInit h config) (groupUpdate h config)
              rows K = Some row"
      by blast
  qed
  with r len show ?thesis by blast
qed

subsection \<open>The pie branch\<close>

lemma pieStep_accumulate:
  "pieStep h config acc item
     = accumulate (pieKey h config) (pieInit h config) (pieUpdate h config) acc item"
  by (simp add: pieStep_def accumulate_def pieKey_def pieInit_def pieUpdate_def Let_def
      split: option.splits)

lemma foldl_pieStep_accumulate:
  "foldl (pieStep h config) acc items
     = foldl (accumulate (pieKey h config) (pieInit h config) (pieUpdate h config)) acc items"
  by (induction items arbitrary: acc) (simp_all add: pieStep_accumulate)

lemma value_not_inherited: "''value'' \<notin> set inherited_names"
  by (simp add: inherited_names_def)

lemma name_not_inherited: "''name'' \<notin> set inherited_names"
  by (simp add: inherited_names_def)

lemma js_get_object_literal2:
  assumes "k \<notin> set inherited_names"
  shows "js_get (object_literal [(a, u), (b, v)]) k
    = (if k = b then v else if k = a then u else Undefined)"
proof -
  have "map_of (prop_put b v (prop_put a u [])) k
    = (if k = b then Some v else if k = a then Some u else None)"
    by (simp add: map_of_prop_put map_of_prop_put_other)
  with assms show ?thesis by (simp add: object_literal_def js_get_def)
qed

lemma pieInit_fields:
  "js_get (pieInit h config item) ''value'' = Json (JNum (num_zero h))"
  "js_get (pieInit h config item) ''name'' = js_get item (xAxis config)"
  using value_not_inherited name_not_inherited
  by (simp_all add: pieInit_def js_get_object_literal2)

lemma pieUpdate_fields:
  "js_get (pieUpdate h config row item) ''value''
     = js_add h (js_get row ''value'') (js_get item (yAxis config))"
  "js_get (pieUpdate h config row item) ''name'' = js_get row ''name''"
  using value_not_inherited name_not_inherited
  by (simp_all add: pieUpdate_def js_get_js_set)

lemma foldl_pieUpdate_value:
  "\<forall>item\<in>set items. typeof (js_get item (yAxis config)) = TyNumber \<Longrightarrow>
   js_get row ''value'' = Json (JNum n) \<Longrightarrow>
   js_get (foldl (pieUpdate h config) row items) ''value''
     = Json (JNum (foldl (num_add h) n (map (\<lambda>item. num_of h (js_get item (yAxis config))) items)))"
proof (induction items arbitrary: row n)
  case Nil
  then show ?case by simp
next
  case (Cons item items)
  from Cons.prems(1) have "typeof (js_get item (yAxis config)) = TyNumber" by simp
  then have i: "js_get item (yAxis config) = Json (JNum (num_of h (js_get item (yAxis config))))"
    by (rule typeof_number)
  have "js_get (pieUpdate h config row item) ''value''
      = js_add h (Json (JNum n)) (Json (JNum (num_of h (js_get item (yAxis config)))))"
    using pieUpdate_fields(1) [of h config row item] Cons.prems(2) i by simp
  then have "js_get (pieUpdate h config row item) ''value''
      = Json (JNum (num_add h n (num_of h (js_get item (yAxis config)))))"
    by (simp add: js_add_numbers)
  moreover from Cons.prems(1)
  have "\<forall>item\<in>set items. typeof (js_get item (yAxis config)) = TyNumber" by simp
  ultimately have "js_get (foldl (pieUpdate h config) (pieUpdate h config row item) items) ''value''
      = Json (JNum (foldl (num_add h) (num_add h n (num_of h (js_get item (yAxis config))))
          (map (\<lambda>item. num_of h (js_get item (yAxis config))) items)))"
    by (rule Cons.IH [rotated])
  then show ?case by simp
qed

lemma foldl_pieUpdate_name:
  "js_get (foldl (pieUpdate h config) row items) ''name'' = js_get row ''name''"
  by (induction items arbitrary: row) (simp_all add: pieUpdate_fields(2))

text \<open>
  For a pie chart without a group-by field, the result is the list of the entries of the
  accumulation by the string form of the X value: one entry for each key that some
  retained row has, other than the names of inherited members; its \<open>name\<close> is the X
  value of the first row with the key and its \<open>value\<close> is \<open>0\<close> plus the Y values of
  the rows with the key, added in order.
\<close>

lemma processDataForChart_pie:
  assumes t: "\<not> truthy_string (groupBy config)" and pie: "ChartConfig.type config = Pie"
    and p: "processed h data config = Inr rows"
  shows "\<exists>aggregated. processDataForChart h data config = Inr (map snd aggregated)
     \<and> distinct (map fst aggregated)
     \<and> fst ` set aggregated = pieKey h config ` set rows - set inherited_names
     \<and> (\<forall>K row. (K, row) \<in> set aggregated \<longrightarrow>
           (\<exists>first rest. with_key (pieKey h config) K rows = first # rest
              \<and> js_get row ''name'' = js_get first (xAxis config)
              \<and> js_get row ''value''
                  = Json (JNum (foldl (num_add h) (num_zero h)
                      (map (\<lambda>item. num_of h (js_get item (yAxis config))) (first # rest))))))"
proof -
  let ?acc = "accumulate (pieKey h config) (pieInit h config) (pieUpdate h config)"
  let ?agg = "foldl ?acc [] rows"
  from p have nums: "\<forall>item\<in>set rows. typeof (js_get item (yAxis config)) = TyNumber"
    using processed_keepItem [of h data config rows] by (simp add: keepItem_def)
  from t pie p have "processDataForChart h data config = Inr (map snd ?agg)"
    by (simp add: processDataForChart_def foldl_pieStep_accumulate)
  moreover have d: "distinct (map fst ?agg)"
    by (rule foldl_accumulate_empty(1))
  moreover have "fst ` set ?agg = pieKey h config ` set rows - set inherited_names"
    by (rule keys_foldl_accumulate_empty)
  moreover have "\<forall>K row. (K, row) \<in> set ?agg \<longrightarrow>
      (\<exists>first rest. with_key (pieKey h config) K rows = first # rest
         \<and> js_get row ''name'' = js_get first (xAxis config)
         \<and> js_get row ''value''
             = Json (JNum (foldl (num_add h) (num_zero h)
                 (map (\<lambda>item. num_of h (js_get item (yAxis config))) (first # rest)))))"
  proof (intro allI impI)
    fix K row
    assume "(K, row) \<in> set ?agg"
    with d have "map_of ?agg K = Some row" by simp
    then have "accumulated (pieKey h config) (pieInit h config) (pieUpdate h config) rows K
        = Some row"
      by (simp add: foldl_accumulate_empty(2) split: if_splits)
    then obtain first rest where
      w: "with_key (pieKey h config) K rows = first # rest" and
      row: "row = foldl (pieUpdate h config) (pieInit h config first) (first # rest)"
      by (auto simp: accumulated_def split: list.splits)
    have "set (with_key (pieKey h config) K rows) \<subseteq> set rows"
      by (auto simp: with_key_def)
    with nums w
    have n: "\<forall>item\<in>set (first # rest). typeof (js_get item (yAxis config)) = TyNumber"
      by auto
    have v: "js_get row ''value''
        = Json (JNum (foldl (num_add h) (num_zero h)
            (map (\<lambda>item. num_of h (js_get item (yAxis config))) (first # rest))))"
      unfolding row using n pieInit_fields(1) [of h config first]
      by (rule foldl_pieUpdate_value)
    have "js_get row ''name'' = js_get first (xAxis config)"
      unfolding row by (simp only: foldl_pieUpdate_name pieInit_fields(2))
    with w v show "\<exists>first rest. with_key (pieKey h config) K rows = first # rest
         \<and> js_get row ''name'' = js_get first (xAxis config)
         \<and> js_get row ''value''
             = Json (JNum (foldl (num_add h) (num_zero h)
                 (map (\<lambda>item. num_of h (js_get item (yAxis config))) (first # rest))))"
      by blast
  qed
  ultimately show ?thesis by blast
qed

subsection \<open>Two inputs where the branches go wrong\<close>

text \<open>
  C4 at a failing input. The two records have the distinct pairs \<open>(a_b, c)\<close> and
  \<open>(a, b_c)\<close> of X value and group value. Both pairs give the key \<open>a_b_c\<close>, and the
  result is a single row that adds up the Y values of both. (Where distinct pairs give
  distinct keys, \<open>processDataForChart_grouped_pairs\<close> and \<open>accumulated_group_values\<close>
  show one row for each pair, with the sum and the count of its rows.)
\<close>

theorem processDataForChart_group_collision:
  "processDataForChart example_host
     [JObj [(''x'', JStr ''a_b''), (''g'', JStr ''c''), (''y'', JNum (Fin 1))],
      JObj [(''x'', JStr ''a''), (''g'', JStr ''b_c''), (''y'', JNum (Fin 2))]]
     \<lparr>ChartConfig.type = Bar, xAxis = ''x'', yAxis = ''y'', groupBy = Some ''g'',
      title = ''y by x''\<rparr>
   = Inr [\<lparr>props = [(''x'', Json (JStr ''a_b'')), (''y'', Json (JNum (Fin 3))),
                    (''count'', Json (JNum (Fin 2))), (''g'', Json (JStr ''c''))],
           has_proto = True\<rparr>]"
  by code_simp

text \<open>
  C5 at a failing input. The chart type is "pie" and a group-by field is set. The rows
  are grouped by X value and group value and returned from the group-by branch; they are
  not collapsed by X value, and they have no \<open>value\<close> field. (Without a group-by
  field, \<open>processDataForChart_pie\<close> shows the collapse by X value with the summed
  \<open>value\<close>.)
\<close>

theorem processDataForChart_pie_with_groupBy:
  "processDataForChart example_host
     [JObj [(''x'', JStr ''a''), (''g'', JStr ''p''), (''y'', JNum (Fin 1))],
      JObj [(''x'', JStr ''a''), (''g'', JStr ''q''), (''y'', JNum (Fin 2))]]
     \<lparr>ChartConfig.type = Pie, xAxis = ''x'', yAxis = ''y'', groupBy = Some ''g'',
      title = ''y by x''\<rparr>
   = Inr [\<lparr>props = [(''x'', Json (JStr ''a'')), (''y'', Json (JNum (Fin 1))),
                    (''count'', Json (JNum (Fin 1))), (''g'', Json (JStr ''p''))],
           has_proto = True\<rparr>,
          \<lparr>props = [(''x'', Json (JStr ''a'')), (''y'', Json (JNum (Fin 2))),
                    (''count'', Json (JNum (Fin 1))), (''g'', Json (JStr ''q''))],
           has_proto = True\<rparr>]"
  by code_simp

end
